theory Spec2Isabelle
  imports Complex_Main "HOL-Library.Word"
begin

section \<open>Values and pixel encodings\<close>

text \<open>
  The band of \<^verbatim>\<open>RasterBand.cpp\<close> keeps its no-data value and its valid range as C++
  \<^verbatim>\<open>double\<close>s, converts them with \<^verbatim>\<open>static_cast<T>\<close> to the pixel type \<open>T\<close> of the
  block, and computes the geometry of the coverage disk in \<^verbatim>\<open>double\<close> arithmetic. A
  \<^verbatim>\<open>double\<close> is modelled by the number it denotes, together with the three special values
  that the code can meet: the valid range starts as a quiet NaN, a division by a resolution
  of 0 gives an infinity, and the no-data value is whatever the caller of
  \<^verbatim>\<open>SetNoDataValue\<close> passes. Negative and positive zero are one number: they compare equal
  in the source too, and the source never divides by a negative zero (its divisors are the
  constant \<^verbatim>\<open>100.0\<close> and the resolution, which is the quotient of an integer by
  \<^verbatim>\<open>100.0\<close>).
\<close>

datatype double = NaN | MInf | Fin real | PInf

text \<open>
  The arithmetic is that of IEEE 754 in the default rounding mode: the result of an
  operation is its exact result rounded to the nearest number of the format, and of two
  nearest numbers the one whose last digit is even. A format has \<open>p\<close> binary digits and
  exponents from \<open>emin\<close> to \<open>emax\<close>: the numbers of the format in the binade
  \<open>2 ^ e \<le> \<bar>x\<bar> < 2 ^ (e + 1)\<close> are the multiples of \<open>2 ^ (e - p + 1)\<close>; below \<open>2 ^ emin\<close>
  (the subnormal numbers) the spacing stays that of the binade \<open>emin\<close>; a result that rounds
  to \<open>2 ^ (emax + 1)\<close> or beyond is an infinity. \<^verbatim>\<open>double\<close> is binary64 (53 digits) and
  \<^verbatim>\<open>float\<close> is binary32 (24 digits).
\<close>

definition pow2 :: "int \<Rightarrow> real" where
  "pow2 k = (if 0 \<le> k then 2 ^ nat k else 1 / 2 ^ nat (- k))"

definition binade :: "real \<Rightarrow> int" where
  "binade x = \<lfloor>log 2 \<bar>x\<bar>\<rfloor>"

definition round_even :: "real \<Rightarrow> int" where
  "round_even x =
     (if x - of_int \<lfloor>x\<rfloor> < 1 / 2 then \<lfloor>x\<rfloor>
      else if 1 / 2 < x - of_int \<lfloor>x\<rfloor> then \<lfloor>x\<rfloor> + 1
      else if even \<lfloor>x\<rfloor> then \<lfloor>x\<rfloor> else \<lfloor>x\<rfloor> + 1)"

definition round_ieee :: "int \<Rightarrow> int \<Rightarrow> int \<Rightarrow> real \<Rightarrow> double" where
  "round_ieee p emin emax x =
     (if x = 0 then Fin 0
      else
        (let e = max (binade x) emin;
             u = pow2 (e - p + 1);
             y = of_int (round_even (x / u)) * u
         in if pow2 (emax + 1) \<le> \<bar>y\<bar> then (if 0 < x then PInf else MInf) else Fin y))"

definition round64 :: "real \<Rightarrow> double" where
  "round64 = round_ieee 53 (- 1022) 1023"

definition round32 :: "real \<Rightarrow> double" where
  "round32 = round_ieee 24 (- 126) 127"

text \<open>
  The operators \<^verbatim>\<open>+\<close>, \<^verbatim>\<open>-\<close>, \<^verbatim>\<open>*\<close> and \<^verbatim>\<open>/\<close> on \<^verbatim>\<open>double\<close>s, and the functions
  \<^verbatim>\<open>std::abs\<close>, \<^verbatim>\<open>std::sqrt\<close>, \<^verbatim>\<open>std::ceil\<close> and \<^verbatim>\<open>std::floor\<close>. The square root is
  rounded like the result of an operator; the absolute value, the ceiling and the floor of
  a \<^verbatim>\<open>double\<close> are \<^verbatim>\<open>double\<close>s, and nothing is rounded.
\<close>

fun dneg :: "double \<Rightarrow> double" where
  "dneg (Fin a) = Fin (- a)"
| "dneg MInf = PInf"
| "dneg PInf = MInf"
| "dneg NaN = NaN"

fun dadd :: "double \<Rightarrow> double \<Rightarrow> double" where
  "dadd (Fin a) (Fin b) = round64 (a + b)"
| "dadd NaN b = NaN"
| "dadd a NaN = NaN"
| "dadd PInf MInf = NaN"
| "dadd MInf PInf = NaN"
| "dadd PInf b = PInf"
| "dadd a PInf = PInf"
| "dadd MInf b = MInf"
| "dadd a MInf = MInf"

definition dsub :: "double \<Rightarrow> double \<Rightarrow> double" where
  "dsub a b = dadd a (dneg b)"

fun dmul :: "double \<Rightarrow> double \<Rightarrow> double" where
  "dmul (Fin a) (Fin b) = round64 (a * b)"
| "dmul NaN b = NaN"
| "dmul a NaN = NaN"
| "dmul (Fin a) PInf = (if a = 0 then NaN else if 0 < a then PInf else MInf)"
| "dmul (Fin a) MInf = (if a = 0 then NaN else if 0 < a then MInf else PInf)"
| "dmul PInf (Fin b) = (if b = 0 then NaN else if 0 < b then PInf else MInf)"
| "dmul MInf (Fin b) = (if b = 0 then NaN else if 0 < b then MInf else PInf)"
| "dmul PInf PInf = PInf"
| "dmul MInf MInf = PInf"
| "dmul PInf MInf = MInf"
| "dmul MInf PInf = MInf"

fun ddiv :: "double \<Rightarrow> double \<Rightarrow> double" where
  "ddiv (Fin a) (Fin b) =
     (if b = 0 then (if a = 0 then NaN else if 0 < a then PInf else MInf) else round64 (a / b))"
| "ddiv NaN b = NaN"
| "ddiv a NaN = NaN"
| "ddiv (Fin a) PInf = Fin 0"
| "ddiv (Fin a) MInf = Fin 0"
| "ddiv PInf (Fin b) = (if 0 \<le> b then PInf else MInf)"
| "ddiv MInf (Fin b) = (if 0 \<le> b then MInf else PInf)"
| "ddiv a b = NaN"

fun std_abs :: "double \<Rightarrow> double" where
  "std_abs (Fin a) = Fin \<bar>a\<bar>"
| "std_abs MInf = PInf"
| "std_abs PInf = PInf"
| "std_abs NaN = NaN"

fun std_sqrt :: "double \<Rightarrow> double" where
  "std_sqrt (Fin a) = (if a < 0 then NaN else round64 (sqrt a))"
| "std_sqrt PInf = PInf"
| "std_sqrt MInf = NaN"
| "std_sqrt NaN = NaN"

fun std_ceil :: "double \<Rightarrow> double" where
  "std_ceil (Fin a) = Fin (of_int \<lceil>a\<rceil>)"
| "std_ceil d = d"

fun std_floor :: "double \<Rightarrow> double" where
  "std_floor (Fin a) = Fin (of_int \<lfloor>a\<rfloor>)"
| "std_floor d = d"

text \<open>
  The conversion of an integer to \<^verbatim>\<open>double\<close> (exact for every integer of 32 bits), and
  the narrowing of a \<^verbatim>\<open>double\<close> to \<^verbatim>\<open>float\<close>, which rounds to binary32.
\<close>

definition to_double :: "int \<Rightarrow> double" where
  "to_double n = round64 (of_int n)"

fun to_float :: "double \<Rightarrow> double" where
  "to_float (Fin a) = round32 a"
| "to_float d = d"

text \<open>The comparisons \<^verbatim>\<open><\<close> and \<^verbatim>\<open>==\<close> of IEEE 754: a NaN compares false with everything.\<close>

fun dless :: "double \<Rightarrow> double \<Rightarrow> bool" where
  "dless (Fin a) (Fin b) = (a < b)"
| "dless MInf (Fin b) = True"
| "dless MInf PInf = True"
| "dless (Fin a) PInf = True"
| "dless _ _ = False"

fun deq :: "double \<Rightarrow> double \<Rightarrow> bool" where
  "deq NaN _ = False"
| "deq _ NaN = False"
| "deq a b = (a = b)"

text \<open>
  Converting a floating value to an integer type truncates towards zero; the behaviour is
  undefined when the truncated value is not representable in the destination type, and so
  for a NaN and for the infinities. \<open>None\<close> stands for the undefined conversion.
\<close>

definition trunc :: "real \<Rightarrow> int" where
  "trunc r = (if 0 \<le> r then \<lfloor>r\<rfloor> else \<lceil>r\<rceil>)"

definition to_integral :: "int \<Rightarrow> int \<Rightarrow> double \<Rightarrow> int option" where
  "to_integral lo hi d =
     (case d of
        Fin r \<Rightarrow> (if lo \<le> trunc r \<and> trunc r \<le> hi then Some (trunc r) else None)
      | _ \<Rightarrow> None)"

text \<open>
  A program whose behaviour is undefined still runs, and throws nothing. What a conversion
  of undefined behaviour delivers is a parameter of the model, the platform: for the
  \<^verbatim>\<open>double\<close> \<open>d\<close> it gives the integer of which the destination type keeps the low bits, or
  nothing, and then the model follows the execution no further. On the platform \<open>strict\<close>
  no such conversion delivers anything. The platform \<open>cvttsd2si\<close> is the conversion
  instruction of that name of x86-64 with a 32-bit destination: it truncates when the
  result fits 32 bits and gives the integer -2147483648 otherwise.
\<close>

type_synonym platform = "double \<Rightarrow> int option"

definition strict :: platform where
  "strict d = None"

definition cvttsd2si :: platform where
  "cvttsd2si d =
     (case to_integral (- 2147483648) 2147483647 d of
        Some v \<Rightarrow> Some v
      | None \<Rightarrow> Some (- 2147483648))"

text \<open>\<^verbatim>\<open>int(d)\<close> for a \<^verbatim>\<open>double\<close> \<open>d\<close>; an \<^verbatim>\<open>int\<close> has 32 bits.\<close>

definition cast_int :: "platform \<Rightarrow> double \<Rightarrow> int option" where
  "cast_int P d =
     (case to_integral (- 2147483648) 2147483647 d of
        Some v \<Rightarrow> Some v
      | None \<Rightarrow> map_option (\<lambda>i. sint (word_of_int i :: 32 word)) (P d))"

text \<open>
  The template parameter \<open>T\<close> of \<^verbatim>\<open>postProcessBlockRow<T>\<close> and
  \<^verbatim>\<open>fillWithNoDataValue<T>\<close>: what the templates use of a pixel type is the conversion
  from \<^verbatim>\<open>double\<close> and the comparisons \<^verbatim>\<open><\<close> and \<^verbatim>\<open>==\<close>. The five integer types are given
  with the conversions that the language defines; \<open>with_platform\<close> adds what the platform
  delivers for the others. A pixel of the encoding \<^verbatim>\<open>float\<close> is the number it denotes, and
  the conversion from \<^verbatim>\<open>double\<close> rounds to it.
\<close>

record 'a PixelType =
  static_cast :: "double \<Rightarrow> 'a option"
  lessThan :: "'a \<Rightarrow> 'a \<Rightarrow> bool"
  equalTo :: "'a \<Rightarrow> 'a \<Rightarrow> bool"

definition uint8_t :: "8 word PixelType" where
  "uint8_t = \<lparr> static_cast = (\<lambda>d. map_option word_of_int (to_integral 0 255 d)),
               lessThan = (\<lambda>a b. a < b), equalTo = (\<lambda>a b. a = b) \<rparr>"

definition int16_t :: "16 word PixelType" where
  "int16_t = \<lparr> static_cast = (\<lambda>d. map_option word_of_int (to_integral (- 32768) 32767 d)),
               lessThan = (\<lambda>a b. sint a < sint b), equalTo = (\<lambda>a b. a = b) \<rparr>"

definition uint16_t :: "16 word PixelType" where
  "uint16_t = \<lparr> static_cast = (\<lambda>d. map_option word_of_int (to_integral 0 65535 d)),
                lessThan = (\<lambda>a b. a < b), equalTo = (\<lambda>a b. a = b) \<rparr>"

definition int32_t :: "32 word PixelType" where
  "int32_t = \<lparr> static_cast = (\<lambda>d. map_option word_of_int (to_integral (- 2147483648) 2147483647 d)),
               lessThan = (\<lambda>a b. sint a < sint b), equalTo = (\<lambda>a b. a = b) \<rparr>"

definition uint32_t :: "32 word PixelType" where
  "uint32_t = \<lparr> static_cast = (\<lambda>d. map_option word_of_int (to_integral 0 4294967295 d)),
                lessThan = (\<lambda>a b. a < b), equalTo = (\<lambda>a b. a = b) \<rparr>"

definition float_t :: "double PixelType" where
  "float_t = \<lparr> static_cast = (\<lambda>d. Some (to_float d)), lessThan = dless, equalTo = deq \<rparr>"

definition double_t :: "double PixelType" where
  "double_t = \<lparr> static_cast = (\<lambda>d. Some d), lessThan = dless, equalTo = deq \<rparr>"

definition with_platform :: "'a::len word PixelType \<Rightarrow> platform \<Rightarrow> 'a word PixelType" where
  "with_platform T P =
     T \<lparr> static_cast :=
           (\<lambda>d. case static_cast T d of
                   Some v \<Rightarrow> Some v
                 | None \<Rightarrow> map_option word_of_int (P d)) \<rparr>"

text \<open>
  \<^verbatim>\<open>GDALDataType\<close> of GDAL: the seven encodings the band dispatches on, and the others.
\<close>

datatype GDALDataType =
    GDT_Unknown | GDT_Byte | GDT_UInt16 | GDT_Int16 | GDT_UInt32 | GDT_Int32
  | GDT_Float32 | GDT_Float64 | GDT_CInt16 | GDT_CInt32 | GDT_CFloat32 | GDT_CFloat64

text \<open>
  The block buffer is a \<^verbatim>\<open>void*\<close> that each case of a \<^verbatim>\<open>switch (eDataType)\<close> casts to
  its pixel type. The model keeps the typed view: a buffer is a list of pixels of one
  encoding. Byte offsets (\<^verbatim>\<open>GDALGetDataTypeSize(eDataType) / 8\<close> bytes per pixel) become
  pixel offsets.
\<close>

datatype blockData =
    ByteData "8 word list"
  | Int16Data "16 word list"
  | UInt16Data "16 word list"
  | Int32Data "32 word list"
  | UInt32Data "32 word list"
  | Float32Data "double list"
  | Float64Data "double list"

text \<open>
  The ways in which a block read ends without a result. The first four are the exceptions
  of the source: \<^verbatim>\<open>std::runtime_error\<close> of \<^verbatim>\<open>fillNoDataBlock\<close>, \<^verbatim>\<open>std::logic_error\<close> of
  \<^verbatim>\<open>readTile\<close> and of \<^verbatim>\<open>fillPartialBlock\<close>, and \<^verbatim>\<open>std::length_error\<close> of
  \<^verbatim>\<open>std::vector::resize\<close> with a negative size. The others are not exceptions: they mark
  the point at which the behaviour of the program is undefined and the model stops
  following it. \<open>OutOfBounds\<close> is a read or write outside a buffer or outside the
  row-segment vector, \<open>UndefinedConversion\<close> a conversion for which the platform delivers
  nothing, \<open>SignedOverflow\<close> an overflow of \<^verbatim>\<open>int\<close> arithmetic, and \<open>TypeMismatch\<close> a buffer
  whose pixels are not of the band's encoding, which the typed view cannot represent.
\<close>

datatype error =
    UnknownNoDataValue | UnsupportedDataType | TileLargerThanBlock
  | LengthError | OutOfBounds | UndefinedConversion | SignedOverflow | TypeMismatch

definition thrown :: "error \<Rightarrow> bool" where
  "thrown e = (e = UnknownNoDataValue \<or> e = UnsupportedDataType \<or> e = TileLargerThanBlock
     \<or> e = LengthError)"

definition load :: "'a list \<Rightarrow> int \<Rightarrow> error + 'a" where
  "load d x = (if 0 \<le> x \<and> x < int (length d) then Inr (d ! nat x) else Inl OutOfBounds)"

definition store :: "'a list \<Rightarrow> int \<Rightarrow> 'a \<Rightarrow> error + 'a list" where
  "store d x v = (if 0 \<le> x \<and> x < int (length d) then Inr (d[nat x := v]) else Inl OutOfBounds)"

section \<open>The valid range of a section\<close>

text \<open>
  \<^verbatim>\<open>getValidValuesRange\<close> writes the range through its two reference parameters and leaves
  them as they are in the default case; the result is the flag and the two values.
\<close>

definition getValidValuesRange :: "nat \<Rightarrow> double \<Rightarrow> double \<Rightarrow> bool \<times> double \<times> double" where
  "getValidValuesRange sectionNum minValue maxValue =
     (if sectionNum = 0 then (True, Fin 0, Fin 200)
      else if sectionNum = 1 then (True, Fin (- 18000), Fin 18000)
      else (False, minValue, maxValue))"

section \<open>Post-processing one row of a block\<close>

record RowSegment =
  seg_start :: int
  seg_end :: int

text \<open>
  The first and the third loop of \<^verbatim>\<open>postProcessBlockRow\<close>, and the loop of
  \<^verbatim>\<open>fillWithNoDataValue\<close>: \<^verbatim>\<open>for (x = from; x < to; ++x) typedData[x] = v\<close>.
\<close>

function fill_loop :: "'a \<Rightarrow> int \<Rightarrow> int \<Rightarrow> 'a list \<Rightarrow> error + 'a list" where
  "fill_loop v x n d =
     (if x < n then (case store d x v of Inl e \<Rightarrow> Inl e | Inr d' \<Rightarrow> fill_loop v (x + 1) n d')
      else Inr d)"
  by pat_completeness auto
termination
  by (relation "measure (\<lambda>(v, x, n, d). nat (n - x))") auto

declare fill_loop.simps [simp del]

text \<open>The body of the second loop: an existing no-data value is skipped, any other is clamped.\<close>

definition clampValue :: "'a PixelType \<Rightarrow> 'a option \<Rightarrow> 'a \<Rightarrow> 'a \<Rightarrow> 'a \<Rightarrow> 'a" where
  "clampValue T typedNoDataValue typedMinValue typedMaxValue val =
     (if (case typedNoDataValue of None \<Rightarrow> False | Some nd \<Rightarrow> equalTo T val nd) then val
      else if lessThan T val typedMinValue then typedMinValue
      else if lessThan T typedMaxValue val then typedMaxValue
      else val)"

function clamp_loop ::
  "'a PixelType \<Rightarrow> 'a option \<Rightarrow> 'a \<Rightarrow> 'a \<Rightarrow> int \<Rightarrow> int \<Rightarrow> 'a list \<Rightarrow> error + 'a list" where
  "clamp_loop T nd lo hi x n d =
     (if x < n then
        (case load d x of
           Inl e \<Rightarrow> Inl e
         | Inr val \<Rightarrow>
             (case store d x (clampValue T nd lo hi val) of
                Inl e \<Rightarrow> Inl e
              | Inr d' \<Rightarrow> clamp_loop T nd lo hi (x + 1) n d'))
      else Inr d)"
  by pat_completeness auto
termination
  by (relation "measure (\<lambda>(T, nd, lo, hi, x, n, d). nat (n - x))") auto

declare clamp_loop.simps [simp del]

definition postProcessBlockRow ::
  "'a PixelType \<Rightarrow> 'a list \<Rightarrow> int \<Rightarrow> RowSegment \<Rightarrow> double option \<Rightarrow> double \<Rightarrow> double
     \<Rightarrow> error + 'a list" where
  "postProcessBlockRow T typedData widthInPixels seg noDataValue minValue maxValue =
     (case static_cast T minValue of
        None \<Rightarrow> Inl UndefinedConversion
      | Some typedMinValue \<Rightarrow>
     (case static_cast T maxValue of
        None \<Rightarrow> Inl UndefinedConversion
      | Some typedMaxValue \<Rightarrow>
     (case noDataValue of
        None \<Rightarrow>
          clamp_loop T None typedMinValue typedMaxValue (seg_start seg) (seg_end seg) typedData
      | Some nd \<Rightarrow>
     (case static_cast T nd of
        None \<Rightarrow> Inl UndefinedConversion
      | Some typedNoDataValue \<Rightarrow>
     (case fill_loop typedNoDataValue 0 (seg_start seg) typedData of
        Inl e \<Rightarrow> Inl e
      | Inr d1 \<Rightarrow>
     (case clamp_loop T (Some typedNoDataValue) typedMinValue typedMaxValue
             (seg_start seg) (seg_end seg) d1 of
        Inl e \<Rightarrow> Inl e
      | Inr d2 \<Rightarrow> fill_loop typedNoDataValue (seg_end seg) widthInPixels d2))))))"

text \<open>
  The column indices at which the three loops access \<^verbatim>\<open>typedData\<close>, in the order of the
  accesses: the first and the third loop run only when a no-data value is set.
\<close>

definition touchedColumns :: "int \<Rightarrow> RowSegment \<Rightarrow> double option \<Rightarrow> int list" where
  "touchedColumns widthInPixels seg noDataValue =
     (if noDataValue \<noteq> None then [0 .. seg_start seg - 1] else [])
     @ [seg_start seg .. seg_end seg - 1]
     @ (if noDataValue \<noteq> None then [seg_end seg .. widthInPixels - 1] else [])"

section \<open>The band and its cache of row segments\<close>

text \<open>
  The prediction parameters and the bounding box come from the band's \<^verbatim>\<open>ApiWrapper\<close>
  (\<^verbatim>\<open>getParams().predData\<close> and \<^verbatim>\<open>getAuxiliary().boundingBox\<close>); they are fields of the
  model's band. The corners of the bounding box are pairs of \<^verbatim>\<open>double\<close>s (x, y).
\<close>

record PredData =
  nResolution_cm :: int
  nRadius_cm :: int
  nX_cm :: int
  nY_cm :: int

record RasterBand =
  eDataType :: GDALDataType
  nRasterXSize :: int
  nRasterYSize :: int
  nBlockXSize :: int
  nBlockYSize :: int
  nBlocksPerRow :: int
  nBlocksPerColumn :: int
  sectionNum :: nat
  noDataValue :: "double option"
  predData :: PredData
  boundingBox_min_corner :: "double \<times> double"
  boundingBox_max_corner :: "double \<times> double"
  rowSegmentsInsidePredictionRadius :: "RowSegment list"

text \<open>
  The body of the loop of \<^verbatim>\<open>computeRowSegmentsInsidePredictionRadius\<close> for one row, with
  the constants that the function computes before the loop. Every operation is the
  \<^verbatim>\<open>double\<close> operation of the source, in the order of the source. The two conversions to
  \<^verbatim>\<open>int\<close> are undefined when the quotient is a NaN, an infinity (a resolution of 0) or
  outside the range of \<^verbatim>\<open>int\<close>, and so is the addition of 1 to the largest \<^verbatim>\<open>int\<close>.
\<close>

definition computeRowSegment :: "platform \<Rightarrow> RasterBand \<Rightarrow> int \<Rightarrow> error + RowSegment" where
  "computeRowSegment P band rowIndex =
     (let res = ddiv (to_double (nResolution_cm (predData band))) (Fin 100);
          radius = ddiv (to_double (nRadius_cm (predData band))) (Fin 100);
          radiusSquared = dmul radius radius;
          txX = ddiv (to_double (nX_cm (predData band))) (Fin 100);
          txY = ddiv (to_double (nY_cm (predData band))) (Fin 100);
          leftmostPixelCenter = dadd (fst (boundingBox_min_corner band)) (dmul (Fin (1 / 2)) res);
          topmostPixelCenter = dsub (snd (boundingBox_max_corner band)) (dmul (Fin (1 / 2)) res);
          y = dsub topmostPixelCenter (dmul (to_double rowIndex) res);
          yDistance = std_abs (dsub y txY)
      in if dless radius yDistance then Inr \<lparr> seg_start = 0, seg_end = 0 \<rparr>
         else
           (let xDistance = std_sqrt (dsub radiusSquared (dmul yDistance yDistance));
                segmentStart = dsub txX xDistance;
                segmentEnd = dadd txX xDistance
            in case cast_int P (std_ceil (ddiv (dsub segmentStart leftmostPixelCenter) res)) of
                 None \<Rightarrow> Inl UndefinedConversion
               | Some s \<Rightarrow>
                   (case cast_int P (std_floor (ddiv (dsub segmentEnd leftmostPixelCenter) res)) of
                      None \<Rightarrow> Inl UndefinedConversion
                    | Some e \<Rightarrow>
                        if e = 2147483647 then Inl SignedOverflow
                        else Inr \<lparr> seg_start = s, seg_end = e + 1 \<rparr>)))"

function computeRowSegments_loop ::
  "platform \<Rightarrow> RasterBand \<Rightarrow> int \<Rightarrow> RowSegment list \<Rightarrow> error + RowSegment list" where
  "computeRowSegments_loop P band rowIndex segs =
     (if rowIndex < nRasterYSize band then
        (case computeRowSegment P band rowIndex of
           Inl e \<Rightarrow> Inl e
         | Inr seg \<Rightarrow>
             (case store segs rowIndex seg of
                Inl e \<Rightarrow> Inl e
              | Inr segs' \<Rightarrow> computeRowSegments_loop P band (rowIndex + 1) segs'))
      else Inr segs)"
  by pat_completeness auto
termination
  by (relation "measure (\<lambda>(P, band, rowIndex, segs). nat (nRasterYSize band - rowIndex))") auto

declare computeRowSegments_loop.simps [simp del]

text \<open>\<^verbatim>\<open>std::vector::resize\<close>: new elements are value-initialised.\<close>

definition resize :: "int \<Rightarrow> RowSegment list \<Rightarrow> error + RowSegment list" where
  "resize n xs =
     (if n < 0 then Inl LengthError
      else Inr (take (nat n) xs @ replicate (nat n - length xs) \<lparr> seg_start = 0, seg_end = 0 \<rparr>))"

definition computeRowSegmentsInsidePredictionRadius :: "platform \<Rightarrow> RasterBand \<Rightarrow> error + RasterBand" where
  "computeRowSegmentsInsidePredictionRadius P band =
     (case resize (nRasterYSize band) (rowSegmentsInsidePredictionRadius band) of
        Inl e \<Rightarrow> Inl e
      | Inr segs \<Rightarrow>
          (case computeRowSegments_loop P band 0 segs of
             Inl e \<Rightarrow> Inl e
           | Inr segs' \<Rightarrow> Inr (band \<lparr> rowSegmentsInsidePredictionRadius := segs' \<rparr>)))"

section \<open>Post-processing a block\<close>

text \<open>
  The lambda \<^verbatim>\<open>computeBlockRowSegment\<close> of \<^verbatim>\<open>postProcessBlock\<close>: the cached segment of
  raster row \<^verbatim>\<open>startRowIndex + y\<close>, made relative to the block and clipped. The block index
  is the pair (column, row).
\<close>

definition computeBlockRowSegment :: "RasterBand \<Rightarrow> int \<times> int \<Rightarrow> int \<Rightarrow> error + RowSegment" where
  "computeBlockRowSegment band blockIndex y =
     (let startColumnIndex = fst blockIndex * nBlockXSize band;
          startRowIndex = snd blockIndex * nBlockYSize band
      in case load (rowSegmentsInsidePredictionRadius band) (startRowIndex + y) of
           Inl e \<Rightarrow> Inl e
         | Inr rowSegment \<Rightarrow>
             Inr \<lparr> seg_start = max 0 (min (nBlockXSize band) (seg_start rowSegment - startColumnIndex)),
                   seg_end = max 0 (min (nBlockXSize band) (seg_end rowSegment - startColumnIndex)) \<rparr>)"

text \<open>
  Row \<open>y\<close> of the block starts \<open>y * nBlockXSize\<close> pixels into the buffer
  (\<^verbatim>\<open>charData + y * blockRowSize\<close>); what the callee writes through that pointer is written
  into the buffer.
\<close>

definition row_view :: "'a list \<Rightarrow> int \<Rightarrow> int \<Rightarrow> 'a list" where
  "row_view d offset width = take (nat width) (drop (nat offset) d)"

definition row_write :: "'a list \<Rightarrow> int \<Rightarrow> 'a list \<Rightarrow> 'a list" where
  "row_write d offset r = take (nat offset) d @ r @ drop (nat offset + length r) d"

text \<open>The loop \<^verbatim>\<open>for (int y = 0; y < nBlockYSize; ++y)\<close> of each case of the switch.\<close>

function rows_loop ::
  "'a PixelType \<Rightarrow> RasterBand \<Rightarrow> int \<times> int \<Rightarrow> double \<Rightarrow> double \<Rightarrow> int \<Rightarrow> 'a list
     \<Rightarrow> error + 'a list" where
  "rows_loop T band blockIndex minValue maxValue y d =
     (if y < nBlockYSize band then
        (case computeBlockRowSegment band blockIndex y of
           Inl e \<Rightarrow> Inl e
         | Inr seg \<Rightarrow>
             (case postProcessBlockRow T (row_view d (y * nBlockXSize band) (nBlockXSize band))
                     (nBlockXSize band) seg (noDataValue band) minValue maxValue of
                Inl e \<Rightarrow> Inl e
              | Inr r \<Rightarrow>
                  rows_loop T band blockIndex minValue maxValue (y + 1)
                    (row_write d (y * nBlockXSize band) r)))
      else Inr d)"
  by pat_completeness auto
termination
  by (relation "measure (\<lambda>(T, band, blockIndex, minValue, maxValue, y, d). nat (nBlockYSize band - y))")
    auto

declare rows_loop.simps [simp del]

definition typed :: "('a list \<Rightarrow> blockData) \<Rightarrow> RasterBand \<Rightarrow> error + 'a list
    \<Rightarrow> error + RasterBand \<times> blockData" where
  "typed C band r = (case r of Inl e \<Rightarrow> Inl e | Inr d \<Rightarrow> Inr (band, C d))"

text \<open>
  \<^verbatim>\<open>postProcessBlock\<close> builds the cache on its first call, so it returns the band too. The
  switch has no default case: for an encoding outside the seven the buffer is returned as
  it is.
\<close>

definition postProcessBlock ::
  "platform \<Rightarrow> RasterBand \<Rightarrow> int \<times> int \<Rightarrow> blockData \<Rightarrow> error + RasterBand \<times> blockData" where
  "postProcessBlock P band0 blockIndex data =
     (case (if rowSegmentsInsidePredictionRadius band0 = []
            then computeRowSegmentsInsidePredictionRadius P band0 else Inr band0) of
        Inl e \<Rightarrow> Inl e
      | Inr band \<Rightarrow>
          (case getValidValuesRange (sectionNum band) NaN NaN of
             (known, minValue, maxValue) \<Rightarrow>
               (case eDataType band of
                  GDT_Byte \<Rightarrow>
                    (case data of
                       ByteData d \<Rightarrow>
                         typed ByteData band (rows_loop (with_platform uint8_t P) band blockIndex minValue maxValue 0 d)
                     | _ \<Rightarrow> Inl TypeMismatch)
                | GDT_Int16 \<Rightarrow>
                    (case data of
                       Int16Data d \<Rightarrow>
                         typed Int16Data band (rows_loop (with_platform int16_t P) band blockIndex minValue maxValue 0 d)
                     | _ \<Rightarrow> Inl TypeMismatch)
                | GDT_UInt16 \<Rightarrow>
                    (case data of
                       UInt16Data d \<Rightarrow>
                         typed UInt16Data band (rows_loop (with_platform uint16_t P) band blockIndex minValue maxValue 0 d)
                     | _ \<Rightarrow> Inl TypeMismatch)
                | GDT_Int32 \<Rightarrow>
                    (case data of
                       Int32Data d \<Rightarrow>
                         typed Int32Data band (rows_loop (with_platform int32_t P) band blockIndex minValue maxValue 0 d)
                     | _ \<Rightarrow> Inl TypeMismatch)
                | GDT_UInt32 \<Rightarrow>
                    (case data of
                       UInt32Data d \<Rightarrow>
                         typed UInt32Data band (rows_loop (with_platform uint32_t P) band blockIndex minValue maxValue 0 d)
                     | _ \<Rightarrow> Inl TypeMismatch)
                | GDT_Float32 \<Rightarrow>
                    (case data of
                       Float32Data d \<Rightarrow>
                         typed Float32Data band (rows_loop float_t band blockIndex minValue maxValue 0 d)
                     | _ \<Rightarrow> Inl TypeMismatch)
                | GDT_Float64 \<Rightarrow>
                    (case data of
                       Float64Data d \<Rightarrow>
                         typed Float64Data band (rows_loop double_t band blockIndex minValue maxValue 0 d)
                     | _ \<Rightarrow> Inl TypeMismatch)
                | _ \<Rightarrow> Inr (band, data))))"

section \<open>Constructing a band\<close>

record SectionInfo =
  dataType :: GDALDataType
  tileSizeInPixels :: "int \<times> int"

definition getNoDataValue :: "SectionInfo \<Rightarrow> double option" where
  "getNoDataValue sectionInfo =
     (case dataType sectionInfo of
        GDT_Float32 \<Rightarrow> Some (Fin (- 9999))
      | GDT_Int16 \<Rightarrow> Some (Fin (- 9999))
      | GDT_Byte \<Rightarrow> Some (Fin 200)
      | _ \<Rightarrow> None)"

text \<open>
  Modelled from the spec: the macro \<^verbatim>\<open>DIV_ROUND_UP\<close> of GDAL's \<^verbatim>\<open>cpl_port.h\<close> is not among
  the sources; the spec derives the blocks per row and per column by ceiling division.
\<close>

definition DIV_ROUND_UP :: "int \<Rightarrow> int \<Rightarrow> int" where
  "DIV_ROUND_UP a b = (if a mod b = 0 then a div b else a div b + 1)"

text \<open>
  The constructor. The size in pixels comes from the dataset, the prediction parameters and
  the bounding box from the \<^verbatim>\<open>ApiWrapper\<close>; the cache of row segments starts empty.
\<close>

definition RasterBand_new ::
  "int \<times> int \<Rightarrow> PredData \<Rightarrow> double \<times> double \<Rightarrow> double \<times> double \<Rightarrow> nat \<Rightarrow> SectionInfo
     \<Rightarrow> RasterBand" where
  "RasterBand_new sizeInPixels pd bbMin bbMax secNum sectionInfo =
     \<lparr> eDataType = dataType sectionInfo,
       nRasterXSize = fst sizeInPixels,
       nRasterYSize = snd sizeInPixels,
       nBlockXSize = fst (tileSizeInPixels sectionInfo),
       nBlockYSize = snd (tileSizeInPixels sectionInfo),
       nBlocksPerRow = DIV_ROUND_UP (fst sizeInPixels) (fst (tileSizeInPixels sectionInfo)),
       nBlocksPerColumn = DIV_ROUND_UP (snd sizeInPixels) (snd (tileSizeInPixels sectionInfo)),
       sectionNum = secNum,
       noDataValue = getNoDataValue sectionInfo,
       predData = pd,
       boundingBox_min_corner = bbMin,
       boundingBox_max_corner = bbMax,
       rowSegmentsInsidePredictionRadius = [] \<rparr>"

definition SetNoDataValue :: "RasterBand \<Rightarrow> double \<Rightarrow> RasterBand" where
  "SetNoDataValue band v = band \<lparr> noDataValue := Some v \<rparr>"

section \<open>Reading a block\<close>

text \<open>
  A tile of the provider (\<^verbatim>\<open>IRasterTile\<close>, an external interface): its pixel count, its
  region (\<^verbatim>\<open>m_width\<close>, \<^verbatim>\<open>m_height\<close>) and one typed getter per encoding, which gives the
  pixels it writes into the caller's buffer when asked for a number of pixels.
\<close>

record Tile =
  GetPixelCount :: nat
  GetTileRegion :: "int \<times> int"
  GetUCharData :: "nat \<Rightarrow> 8 word list"
  GetShortData :: "nat \<Rightarrow> 16 word list"
  GetUShortData :: "nat \<Rightarrow> 16 word list"
  GetIntData :: "nat \<Rightarrow> 32 word list"
  GetUIntData :: "nat \<Rightarrow> 32 word list"
  GetFloatData :: "nat \<Rightarrow> double list"
  GetDoubleData :: "nat \<Rightarrow> double list"

text \<open>
  \<^verbatim>\<open>size_t(nBlockXSize) * nBlockYSize\<close>; the sizes of a block, and below those of a tile's
  region, are taken as they are when they are not negative.
\<close>

definition getNumPixelsPerBlock :: "RasterBand \<Rightarrow> nat" where
  "getNumPixelsPerBlock band = nat (nBlockXSize band) * nat (nBlockYSize band)"

text \<open>A getter writes its pixels at the start of the buffer it is given.\<close>

definition write_pixels :: "'a list \<Rightarrow> 'a list \<Rightarrow> error + 'a list" where
  "write_pixels xs d =
     (if length xs \<le> length d then Inr (xs @ drop (length xs) d) else Inl OutOfBounds)"

definition into :: "('a list \<Rightarrow> blockData) \<Rightarrow> error + 'a list \<Rightarrow> error + blockData" where
  "into C r = (case r of Inl e \<Rightarrow> Inl e | Inr d \<Rightarrow> Inr (C d))"

definition readTile :: "RasterBand \<Rightarrow> Tile \<Rightarrow> nat \<Rightarrow> blockData \<Rightarrow> error + blockData" where
  "readTile band tile numPixels data =
     (case eDataType band of
        GDT_Byte \<Rightarrow>
          (case data of
             ByteData d \<Rightarrow> into ByteData (write_pixels (GetUCharData tile numPixels) d)
           | _ \<Rightarrow> Inl TypeMismatch)
      | GDT_Int16 \<Rightarrow>
          (case data of
             Int16Data d \<Rightarrow> into Int16Data (write_pixels (GetShortData tile numPixels) d)
           | _ \<Rightarrow> Inl TypeMismatch)
      | GDT_UInt16 \<Rightarrow>
          (case data of
             UInt16Data d \<Rightarrow> into UInt16Data (write_pixels (GetUShortData tile numPixels) d)
           | _ \<Rightarrow> Inl TypeMismatch)
      | GDT_Int32 \<Rightarrow>
          (case data of
             Int32Data d \<Rightarrow> into Int32Data (write_pixels (GetIntData tile numPixels) d)
           | _ \<Rightarrow> Inl TypeMismatch)
      | GDT_UInt32 \<Rightarrow>
          (case data of
             UInt32Data d \<Rightarrow> into UInt32Data (write_pixels (GetUIntData tile numPixels) d)
           | _ \<Rightarrow> Inl TypeMismatch)
      | GDT_Float32 \<Rightarrow>
          (case data of
             Float32Data d \<Rightarrow> into Float32Data (write_pixels (GetFloatData tile numPixels) d)
           | _ \<Rightarrow> Inl TypeMismatch)
      | GDT_Float64 \<Rightarrow>
          (case data of
             Float64Data d \<Rightarrow> into Float64Data (write_pixels (GetDoubleData tile numPixels) d)
           | _ \<Rightarrow> Inl TypeMismatch)
      | _ \<Rightarrow> Inl UnsupportedDataType)"

definition fillWithNoDataValue :: "'a \<Rightarrow> 'a list \<Rightarrow> nat \<Rightarrow> error + 'a list" where
  "fillWithNoDataValue v typedData numPixels = fill_loop v 0 (int numPixels) typedData"

text \<open>
  \<^verbatim>\<open>fillNoDataBlock\<close> throws when the band has no no-data value. Its switch has no default
  case: for an encoding outside the seven it returns with the buffer as it was.
\<close>

definition fillNoDataBlock :: "platform \<Rightarrow> RasterBand \<Rightarrow> blockData \<Rightarrow> error + blockData" where
  "fillNoDataBlock P band blockData =
     (case noDataValue band of
        None \<Rightarrow> Inl UnknownNoDataValue
      | Some nd \<Rightarrow>
          (let numPixels = getNumPixelsPerBlock band
           in case eDataType band of
                GDT_Byte \<Rightarrow>
                  (case static_cast (with_platform uint8_t P) nd of
                     None \<Rightarrow> Inl UndefinedConversion
                   | Some v \<Rightarrow>
                       (case blockData of
                          ByteData d \<Rightarrow> into ByteData (fillWithNoDataValue v d numPixels)
                        | _ \<Rightarrow> Inl TypeMismatch))
              | GDT_Int16 \<Rightarrow>
                  (case static_cast (with_platform int16_t P) nd of
                     None \<Rightarrow> Inl UndefinedConversion
                   | Some v \<Rightarrow>
                       (case blockData of
                          Int16Data d \<Rightarrow> into Int16Data (fillWithNoDataValue v d numPixels)
                        | _ \<Rightarrow> Inl TypeMismatch))
              | GDT_UInt16 \<Rightarrow>
                  (case static_cast (with_platform uint16_t P) nd of
                     None \<Rightarrow> Inl UndefinedConversion
                   | Some v \<Rightarrow>
                       (case blockData of
                          UInt16Data d \<Rightarrow> into UInt16Data (fillWithNoDataValue v d numPixels)
                        | _ \<Rightarrow> Inl TypeMismatch))
              | GDT_Int32 \<Rightarrow>
                  (case static_cast (with_platform int32_t P) nd of
                     None \<Rightarrow> Inl UndefinedConversion
                   | Some v \<Rightarrow>
                       (case blockData of
                          Int32Data d \<Rightarrow> into Int32Data (fillWithNoDataValue v d numPixels)
                        | _ \<Rightarrow> Inl TypeMismatch))
              | GDT_UInt32 \<Rightarrow>
                  (case static_cast (with_platform uint32_t P) nd of
                     None \<Rightarrow> Inl UndefinedConversion
                   | Some v \<Rightarrow>
                       (case blockData of
                          UInt32Data d \<Rightarrow> into UInt32Data (fillWithNoDataValue v d numPixels)
                        | _ \<Rightarrow> Inl TypeMismatch))
              | GDT_Float32 \<Rightarrow>
                  (case static_cast float_t nd of
                     None \<Rightarrow> Inl UndefinedConversion
                   | Some v \<Rightarrow>
                       (case blockData of
                          Float32Data d \<Rightarrow> into Float32Data (fillWithNoDataValue v d numPixels)
                        | _ \<Rightarrow> Inl TypeMismatch))
              | GDT_Float64 \<Rightarrow>
                  (case blockData of
                     Float64Data d \<Rightarrow> into Float64Data (fillWithNoDataValue nd d numPixels)
                   | _ \<Rightarrow> Inl TypeMismatch)
              | _ \<Rightarrow> Inr blockData))"

text \<open>
  \<^verbatim>\<open>memcpy\<close> of \<open>n\<close> pixels from offset \<open>soff\<close> of the tile's data to offset \<open>doff\<close> of the
  block.
\<close>

definition memcpy :: "'a list \<Rightarrow> int \<Rightarrow> 'a list \<Rightarrow> int \<Rightarrow> int \<Rightarrow> error + 'a list" where
  "memcpy dst doff src soff n =
     (if 0 \<le> n \<and> 0 \<le> soff \<and> soff + n \<le> int (length src)
         \<and> 0 \<le> doff \<and> doff + n \<le> int (length dst)
      then Inr (take (nat doff) dst @ take (nat n) (drop (nat soff) src) @ drop (nat (doff + n)) dst)
      else Inl OutOfBounds)"

function copy_rows_loop ::
  "int \<Rightarrow> int \<Rightarrow> int \<Rightarrow> int \<Rightarrow> 'a list \<Rightarrow> 'a list \<Rightarrow> error + 'a list" where
  "copy_rows_loop m_width m_height blockXSize y tileData blockData =
     (if y < m_height then
        (case memcpy blockData (y * blockXSize) tileData (y * m_width) m_width of
           Inl e \<Rightarrow> Inl e
         | Inr blockData' \<Rightarrow> copy_rows_loop m_width m_height blockXSize (y + 1) tileData blockData')
      else Inr blockData)"
  by pat_completeness auto
termination
  by (relation "measure (\<lambda>(m_width, m_height, blockXSize, y, tileData, blockData). nat (m_height - y))")
    auto

declare copy_rows_loop.simps [simp del]

text \<open>
  The rows of the tile are copied bytewise; in the typed view, tile data and block are of
  the same encoding.
\<close>

fun copy_rows :: "int \<Rightarrow> int \<Rightarrow> int \<Rightarrow> blockData \<Rightarrow> blockData \<Rightarrow> error + blockData" where
  "copy_rows w h bw (ByteData t) (ByteData b) = into ByteData (copy_rows_loop w h bw 0 t b)"
| "copy_rows w h bw (Int16Data t) (Int16Data b) = into Int16Data (copy_rows_loop w h bw 0 t b)"
| "copy_rows w h bw (UInt16Data t) (UInt16Data b) = into UInt16Data (copy_rows_loop w h bw 0 t b)"
| "copy_rows w h bw (Int32Data t) (Int32Data b) = into Int32Data (copy_rows_loop w h bw 0 t b)"
| "copy_rows w h bw (UInt32Data t) (UInt32Data b) = into UInt32Data (copy_rows_loop w h bw 0 t b)"
| "copy_rows w h bw (Float32Data t) (Float32Data b) = into Float32Data (copy_rows_loop w h bw 0 t b)"
| "copy_rows w h bw (Float64Data t) (Float64Data b) = into Float64Data (copy_rows_loop w h bw 0 t b)"
| "copy_rows w h bw _ _ = Inl TypeMismatch"

text \<open>
  The temporary buffer of \<^verbatim>\<open>fillPartialBlock\<close>, zero-initialised by \<^verbatim>\<open>std::make_unique\<close>.
  For an encoding outside the seven \<^verbatim>\<open>readTile\<close> throws without looking at it.
\<close>

definition make_tileData :: "GDALDataType \<Rightarrow> nat \<Rightarrow> blockData" where
  "make_tileData dt n =
     (case dt of
        GDT_Byte \<Rightarrow> ByteData (replicate n 0)
      | GDT_Int16 \<Rightarrow> Int16Data (replicate n 0)
      | GDT_UInt16 \<Rightarrow> UInt16Data (replicate n 0)
      | GDT_Int32 \<Rightarrow> Int32Data (replicate n 0)
      | GDT_UInt32 \<Rightarrow> UInt32Data (replicate n 0)
      | GDT_Float32 \<Rightarrow> Float32Data (replicate n (Fin 0))
      | GDT_Float64 \<Rightarrow> Float64Data (replicate n (Fin 0))
      | _ \<Rightarrow> ByteData [])"

definition fillPartialBlock :: "RasterBand \<Rightarrow> Tile \<Rightarrow> blockData \<Rightarrow> error + blockData" where
  "fillPartialBlock band tile blockData =
     (case GetTileRegion tile of
        (m_width, m_height) \<Rightarrow>
          if m_width > nBlockXSize band \<or> m_height > nBlockYSize band then Inl TileLargerThanBlock
          else
            (let numTilePixels = nat m_width * nat m_height
             in case readTile band tile numTilePixels (make_tileData (eDataType band) numTilePixels) of
                  Inl e \<Rightarrow> Inl e
                | Inr tileData \<Rightarrow> copy_rows m_width m_height (nBlockXSize band) tileData blockData))"

text \<open>
  \<^verbatim>\<open>readBlock\<close>: the tile iterator is the function that gives the tile of a block, or none
  when \<^verbatim>\<open>raw_GetTile\<close> fails. The result is the buffer and the flag (false when there is no
  tile for the block).
\<close>

definition readBlock ::
  "platform \<Rightarrow> RasterBand \<Rightarrow> (int \<Rightarrow> int \<Rightarrow> Tile option) \<Rightarrow> int \<times> int \<Rightarrow> blockData
     \<Rightarrow> error + blockData \<times> bool" where
  "readBlock P band raw_GetTile blockIndex data =
     (case raw_GetTile (fst blockIndex) (snd blockIndex) of
        None \<Rightarrow>
          (case fillNoDataBlock P band data of Inl e \<Rightarrow> Inl e | Inr d \<Rightarrow> Inr (d, False))
      | Some tile \<Rightarrow>
          (let numTilePixels = GetPixelCount tile;
               numBlockPixels = getNumPixelsPerBlock band
           in if numTilePixels = numBlockPixels then
                (case readTile band tile numBlockPixels data of
                   Inl e \<Rightarrow> Inl e
                 | Inr d \<Rightarrow> Inr (d, True))
              else
                (case fillPartialBlock band tile data of
                   Inl e \<Rightarrow> Inl e
                 | Inr d \<Rightarrow> Inr (d, True))))"

datatype CPLErr = CE_None | CE_Debug | CE_Warning | CE_Failure | CE_Fatal

text \<open>
  \<^verbatim>\<open>IReadBlock\<close> catches every exception and reports \<^verbatim>\<open>CE_Failure\<close>; then the caller gets
  no buffer. Otherwise it returns \<^verbatim>\<open>CE_None\<close>, with the band (whose cache the
  post-processing may have built) and the buffer. Where the read has met undefined
  behaviour nothing is thrown and nothing is caught: the model gives no result for the call.
\<close>

definition IReadBlock ::
  "platform \<Rightarrow> RasterBand \<Rightarrow> (int \<Rightarrow> int \<Rightarrow> Tile option) \<Rightarrow> int \<Rightarrow> int \<Rightarrow> blockData
     \<Rightarrow> error + CPLErr \<times> (RasterBand \<times> blockData) option" where
  "IReadBlock P band raw_GetTile nXBlockOff nYBlockOff pImage =
     (case (case readBlock P band raw_GetTile (nXBlockOff, nYBlockOff) pImage of
              Inl e \<Rightarrow> Inl e
            | Inr (d, tilePresent) \<Rightarrow>
                if tilePresent then postProcessBlock P band (nXBlockOff, nYBlockOff) d
                else Inr (band, d)) of
        Inl e \<Rightarrow> (if thrown e then Inr (CE_Failure, None) else Inl e)
      | Inr r \<Rightarrow> Inr (CE_None, Some r))"

section \<open>Notions of the specification\<close>

text \<open>
  The geometry of a row in the arithmetic of the real numbers, as the specification states
  it: the resolution, the radius and the transmitter in metres, the centres of the left-most
  and top-most pixels, the vertical distance \<open>dy\<close> of a row from the transmitter, the half
  chord \<open>dx = sqrt (radius * radius - dy * dy)\<close>, and the x-coordinate of the centre of
  pixel column \<open>c\<close>.
\<close>

fun real_of_double :: "double \<Rightarrow> real" where
  "real_of_double (Fin a) = a"
| "real_of_double d = 0"

definition exact_res :: "RasterBand \<Rightarrow> real" where
  "exact_res band = real_of_int (nResolution_cm (predData band)) / 100"

definition exact_radius :: "RasterBand \<Rightarrow> real" where
  "exact_radius band = real_of_int (nRadius_cm (predData band)) / 100"


definition exact_txY :: "RasterBand \<Rightarrow> real" where
  "exact_txY band = real_of_int (nY_cm (predData band)) / 100"


definition exact_topmostPixelCenter :: "RasterBand \<Rightarrow> real" where
  "exact_topmostPixelCenter band =
     real_of_double (snd (boundingBox_max_corner band)) - exact_res band / 2"

definition exact_yDistance :: "RasterBand \<Rightarrow> int \<Rightarrow> real" where
  "exact_yDistance band rowIndex =
     \<bar>(exact_topmostPixelCenter band - real_of_int rowIndex * exact_res band) - exact_txY band\<bar>"



text \<open>
  A block buffer all of whose \<open>n\<close> pixels are the no-data value converted to the encoding
  \<open>dt\<close>; there is none when the encoding is not one of the seven, or when the conversion
  is undefined and the platform delivers nothing.
\<close>

definition sentinelBlock :: "platform \<Rightarrow> GDALDataType \<Rightarrow> double \<Rightarrow> nat \<Rightarrow> blockData option" where
  "sentinelBlock P dt nd n =
     (case dt of
        GDT_Byte \<Rightarrow>
          map_option (\<lambda>v. ByteData (replicate n v)) (static_cast (with_platform uint8_t P) nd)
      | GDT_Int16 \<Rightarrow>
          map_option (\<lambda>v. Int16Data (replicate n v)) (static_cast (with_platform int16_t P) nd)
      | GDT_UInt16 \<Rightarrow>
          map_option (\<lambda>v. UInt16Data (replicate n v)) (static_cast (with_platform uint16_t P) nd)
      | GDT_Int32 \<Rightarrow>
          map_option (\<lambda>v. Int32Data (replicate n v)) (static_cast (with_platform int32_t P) nd)
      | GDT_UInt32 \<Rightarrow>
          map_option (\<lambda>v. UInt32Data (replicate n v)) (static_cast (with_platform uint32_t P) nd)
      | GDT_Float32 \<Rightarrow> Some (Float32Data (replicate n (to_float nd)))
      | GDT_Float64 \<Rightarrow> Some (Float64Data (replicate n nd))
      | _ \<Rightarrow> None)"

text \<open>The encoding and the number of pixels of a buffer.\<close>

fun bufferType :: "blockData \<Rightarrow> GDALDataType" where
  "bufferType (ByteData d) = GDT_Byte"
| "bufferType (Int16Data d) = GDT_Int16"
| "bufferType (UInt16Data d) = GDT_UInt16"
| "bufferType (Int32Data d) = GDT_Int32"
| "bufferType (UInt32Data d) = GDT_UInt32"
| "bufferType (Float32Data d) = GDT_Float32"
| "bufferType (Float64Data d) = GDT_Float64"

fun pixelCount :: "blockData \<Rightarrow> nat" where
  "pixelCount (ByteData d) = length d"
| "pixelCount (Int16Data d) = length d"
| "pixelCount (UInt16Data d) = length d"
| "pixelCount (Int32Data d) = length d"
| "pixelCount (UInt32Data d) = length d"
| "pixelCount (Float32Data d) = length d"
| "pixelCount (Float64Data d) = length d"

text \<open>
  What a loop over the columns \<open>x \<le> i < n\<close> that applies \<open>f\<close> to each pixel makes of a row.
\<close>

definition map_range :: "('a \<Rightarrow> 'a) \<Rightarrow> int \<Rightarrow> int \<Rightarrow> 'a list \<Rightarrow> 'a list" where
  "map_range f x n d =
     map (\<lambda>i. if x \<le> int i \<and> int i < n then f (d ! i) else d ! i) [0..<length d]"

text \<open>Typed bounds under which clamping twice is clamping once.\<close>

definition clamp_ok :: "'a PixelType \<Rightarrow> 'a \<Rightarrow> 'a \<Rightarrow> bool" where
  "clamp_ok T lo hi = (\<not> lessThan T lo lo \<and> \<not> lessThan T hi hi \<and> \<not> lessThan T hi lo)"

definition range_ok :: "'a PixelType \<Rightarrow> double \<Rightarrow> double \<Rightarrow> bool" where
  "range_ok T minValue maxValue =
     (\<forall>lo hi. static_cast T minValue = Some lo \<and> static_cast T maxValue = Some hi
        \<longrightarrow> clamp_ok T lo hi)"

text \<open>
  The pixel type \<open>T\<close> on a platform where a conversion whose behaviour is undefined yields
  a value all the same: \<open>f d\<close> for the \<^verbatim>\<open>double\<close> \<open>d\<close>.
\<close>

definition with_undefined :: "'a PixelType \<Rightarrow> (double \<Rightarrow> 'a) \<Rightarrow> 'a PixelType" where
  "with_undefined T f =
     T \<lparr> static_cast := (\<lambda>d. case static_cast T d of None \<Rightarrow> Some (f d) | Some v \<Rightarrow> Some v) \<rparr>"

section \<open>Example bands\<close>

text \<open>
  A raster of 4 columns with a resolution of 1 m whose left-most pixel centre is at x = 0.
  The transmitter is at (0.5, 3.5) with a radius of 1.25 m: on the row whose centre is at
  y = 3.5 the disk reaches from x = -0.75 to x = 1.75, on the row at y = 2.5 from x = -0.25
  to x = 1.25, and both rows are covered in the columns 0 and 1; the rows below are outside
  the disk. All these numbers are \<^verbatim>\<open>double\<close>s and no operation on them rounds.
\<close>

definition pd_example :: PredData where
  "pd_example = \<lparr> nResolution_cm = 100, nRadius_cm = 125, nX_cm = 50, nY_cm = 350 \<rparr>"

definition segs_example :: "RowSegment list" where
  "segs_example =
     [\<lparr> seg_start = 0, seg_end = 2 \<rparr>, \<lparr> seg_start = 0, seg_end = 2 \<rparr>,
      \<lparr> seg_start = 0, seg_end = 0 \<rparr>, \<lparr> seg_start = 0, seg_end = 0 \<rparr>]"

definition band_int16 :: RasterBand where
  "band_int16 = RasterBand_new (4, 4) pd_example (Fin (- 1 / 2), Fin 0) (Fin (7 / 2), Fin 4) 0
     \<lparr> dataType = GDT_Int16, tileSizeInPixels = (2, 2) \<rparr>"

definition band_byte_section1 :: RasterBand where
  "band_byte_section1 = RasterBand_new (4, 4) pd_example (Fin (- 1 / 2), Fin 0) (Fin (7 / 2), Fin 4) 1
     \<lparr> dataType = GDT_Byte, tileSizeInPixels = (2, 2) \<rparr>"

definition band_byte_section2 :: RasterBand where
  "band_byte_section2 = RasterBand_new (4, 4) pd_example (Fin (- 1 / 2), Fin 0) (Fin (7 / 2), Fin 4) 2
     \<lparr> dataType = GDT_Byte, tileSizeInPixels = (2, 2) \<rparr>"


text \<open>A band of the same geometry with a complex encoding, after \<^verbatim>\<open>SetNoDataValue(0)\<close>.\<close>

definition band_cint16 :: RasterBand where
  "band_cint16 = SetNoDataValue
     (RasterBand_new (4, 4) pd_example (Fin (- 1 / 2), Fin 0) (Fin (7 / 2), Fin 4) 0
        \<lparr> dataType = GDT_CInt16, tileSizeInPixels = (2, 2) \<rparr>) (Fin 0)"

text \<open>A band of bytes of the same geometry, after \<^verbatim>\<open>SetNoDataValue(256)\<close>.\<close>

definition band_byte_256 :: RasterBand where
  "band_byte_256 = SetNoDataValue
     (RasterBand_new (4, 4) pd_example (Fin (- 1 / 2), Fin 0) (Fin (7 / 2), Fin 4) 0
        \<lparr> dataType = GDT_Byte, tileSizeInPixels = (2, 2) \<rparr>) (Fin 256)"

text \<open>
  A band of 32-bit floats of the same geometry, after \<^verbatim>\<open>SetNoDataValue(16777217)\<close>: the
  \<^verbatim>\<open>float\<close>s next to that number are 16777216 and 16777218.
\<close>

definition band_float32 :: RasterBand where
  "band_float32 = SetNoDataValue
     (RasterBand_new (4, 4) pd_example (Fin (- 1 / 2), Fin 0) (Fin (7 / 2), Fin 4) 1
        \<lparr> dataType = GDT_Float32, tileSizeInPixels = (2, 2) \<rparr>) (Fin 16777217)"

text \<open>
  A raster of 3 rows in blocks of 2 rows: the transmitter is at (0.5, 3.5), the top row
  (centre at y = 2.5) is covered in the columns 0 and 1, the two rows below are not.
\<close>

definition band_3rows :: RasterBand where
  "band_3rows = RasterBand_new (4, 3) pd_example (Fin (- 1 / 2), Fin 0) (Fin (7 / 2), Fin 3) 0
     \<lparr> dataType = GDT_Byte, tileSizeInPixels = (2, 2) \<rparr>"

definition segs_3rows :: "RowSegment list" where
  "segs_3rows =
     [\<lparr> seg_start = 0, seg_end = 2 \<rparr>, \<lparr> seg_start = 0, seg_end = 0 \<rparr>,
      \<lparr> seg_start = 0, seg_end = 0 \<rparr>]"

text \<open>
  A raster of one row whose centre is at y = 1, at a distance of exactly the radius (1 m)
  from the transmitter at (0.5, 0): the disk touches the row in the point x = 0.5, between
  the centres of the columns 0 and 1 (at x = 0 and x = 1). No operation rounds.
\<close>

definition band_tangent :: RasterBand where
  "band_tangent = RasterBand_new (4, 1)
     \<lparr> nResolution_cm = 100, nRadius_cm = 100, nX_cm = 50, nY_cm = 0 \<rparr>
     (Fin (- 1 / 2), Fin (1 / 2)) (Fin (7 / 2), Fin (3 / 2)) 0
     \<lparr> dataType = GDT_Byte, tileSizeInPixels = (2, 1) \<rparr>"


text \<open>Tile providers: one without tiles, and one whose tile is 4 pixels wide and 1 high.\<close>

definition no_tiles :: "int \<Rightarrow> int \<Rightarrow> Tile option" where
  "no_tiles x y = None"

definition wide_tile :: Tile where
  "wide_tile = \<lparr> GetPixelCount = 4, GetTileRegion = (4, 1),
     GetUCharData = (\<lambda>n. take n [1, 2, 3, 4]), GetShortData = (\<lambda>n. []),
     GetUShortData = (\<lambda>n. []), GetIntData = (\<lambda>n. []), GetUIntData = (\<lambda>n. []),
     GetFloatData = (\<lambda>n. []), GetDoubleData = (\<lambda>n. []) \<rparr>"

definition large_tile :: Tile where
  "large_tile = \<lparr> GetPixelCount = 9, GetTileRegion = (3, 3),
     GetUCharData = (\<lambda>n. take n [1, 2, 3, 4, 5, 6, 7, 8, 9]), GetShortData = (\<lambda>n. []),
     GetUShortData = (\<lambda>n. []), GetIntData = (\<lambda>n. []), GetUIntData = (\<lambda>n. []),
     GetFloatData = (\<lambda>n. []), GetDoubleData = (\<lambda>n. []) \<rparr>"

section \<open>Rounding\<close>

text \<open>
  Three ways to evaluate a rounding: a number of the format is left as it is
  (\<open>round_ieee_exact\<close>); a number within less than half a unit of the last place from a
  number of the format rounds to it (\<open>round_ieee_near\<close>); and a number half-way between two
  neighbours rounds to the even one (\<open>round_ieee_tie\<close>).
\<close>

lemma pow2_powr: "pow2 k = 2 powr real_of_int k"
proof (cases "0 \<le> k")
  case True
  then have "2 powr real_of_int k = 2 powr real (nat k)" by simp
  also have "\<dots> = 2 ^ nat k" by (rule powr_realpow) simp
  finally show ?thesis using True by (simp add: pow2_def)
next
  case False
  then have "2 powr real_of_int k = 2 powr (- real (nat (- k)))" by simp
  also have "\<dots> = 1 / 2 powr real (nat (- k))" by (simp only: powr_minus_divide)
  also have "2 powr real (nat (- k)) = 2 ^ nat (- k)" by (rule powr_realpow) simp
  finally show ?thesis using False by (simp add: pow2_def)
qed

lemma pow2_pos [simp]: "0 < pow2 k"
  by (simp add: pow2_powr)

lemma pow2_nz [simp]: "pow2 k \<noteq> 0"
  using pow2_pos [of k] by linarith

lemma pow2_add: "pow2 (a + b) = pow2 a * pow2 b"
  by (simp add: pow2_powr powr_add)

lemma pow2_mono: "a \<le> b \<Longrightarrow> pow2 a \<le> pow2 b"
  by (simp add: pow2_powr)

lemma pow2_nat: "0 \<le> k \<Longrightarrow> pow2 k = of_int (2 ^ nat k)"
  by (simp add: pow2_def)

lemma binade_bounds:
  assumes "x \<noteq> 0"
  shows "pow2 (binade x) \<le> \<bar>x\<bar>" and "\<bar>x\<bar> < pow2 (binade x + 1)"
proof -
  have pos: "0 < \<bar>x\<bar>" using assms by simp
  have "real_of_int (binade x) \<le> log 2 \<bar>x\<bar>" by (simp add: binade_def)
  then show "pow2 (binade x) \<le> \<bar>x\<bar>"
    using pos by (simp add: pow2_powr le_log_iff)
  have "log 2 \<bar>x\<bar> < real_of_int (binade x + 1)" by (simp add: binade_def)
  then show "\<bar>x\<bar> < pow2 (binade x + 1)"
    using pos by (simp only: pow2_powr log_less_iff)
qed

lemma binade_eq:
  assumes "pow2 k \<le> \<bar>x\<bar>" and "\<bar>x\<bar> < pow2 (k + 1)"
  shows "binade x = k"
proof -
  have pos: "0 < \<bar>x\<bar>" using assms(1) pow2_pos [of k] by linarith
  have "real_of_int k \<le> log 2 \<bar>x\<bar>"
    using assms(1) pos by (simp add: pow2_powr le_log_iff)
  moreover have "log 2 \<bar>x\<bar> < real_of_int (k + 1)"
    using assms(2) pos by (simp only: pow2_powr log_less_iff)
  ultimately show ?thesis unfolding binade_def by (intro floor_unique) simp_all
qed

lemma round_even_near:
  assumes "\<bar>y - of_int n\<bar> < 1 / 2"
  shows "round_even y = n"
proof (cases "of_int n \<le> y")
  case True
  with assms have "\<lfloor>y\<rfloor> = n" by (intro floor_unique) (simp_all add: abs_less_iff)
  with assms True show ?thesis by (simp add: round_even_def abs_less_iff)
next
  case False
  with assms have f: "\<lfloor>y\<rfloor> = n - 1" by (intro floor_unique) (simp_all add: abs_less_iff)
  with assms False show ?thesis by (simp add: round_even_def abs_less_iff)
qed

lemma round_even_of_int [simp]: "round_even (of_int n) = n"
  by (rule round_even_near) simp

lemma round_even_tie:
  assumes "y = of_int n + 1 / 2"
  shows "round_even y = (if even n then n else n + 1)"
proof -
  have "\<lfloor>y\<rfloor> = n" using assms by (intro floor_unique) simp_all
  with assms show ?thesis by (simp add: round_even_def)
qed


lemma round_ieee_tie:
  assumes "pow2 k \<le> \<bar>x\<bar>" and "\<bar>x\<bar> < pow2 (k + 1)" and "emin \<le> k"
    and "x / pow2 (k - p + 1) = of_int n + 1 / 2" and "even n"
    and "\<bar>of_int n * pow2 (k - p + 1)\<bar> < pow2 (emax + 1)"
  shows "round_ieee p emin emax x = Fin (of_int n * pow2 (k - p + 1))"
proof -
  have "0 < \<bar>x\<bar>" using assms(1) pow2_pos [of k] by linarith
  then have nz: "x \<noteq> 0" by auto
  have b: "binade x = k" using assms(1,2) by (rule binade_eq)
  have r: "round_even (x / pow2 (k - p + 1)) = n"
    using round_even_tie [OF assms(4)] assms(5) by simp
  show ?thesis
    using nz assms(3,6) by (simp add: round_ieee_def b r max_def Let_def)
qed


lemma round_ieee_exact:
  assumes int: "x * 2 ^ j \<in> \<int>" and small: "\<bar>x\<bar> * 2 ^ j < 2 ^ nat p"
    and j: "int j \<le> p - 1 - emin" and p: "0 < p" "p \<le> emax + 1"
  shows "round_ieee p emin emax x = Fin x"
proof (cases "x = 0")
  case True
  then show ?thesis by (simp add: round_ieee_def)
next
  case False
  define e where "e = max (binade x) emin"
  define u where "u = pow2 (e - p + 1)"
  from int obtain m :: int where m: "x * 2 ^ j = of_int m" by (auto elim: Ints_cases)
  have x: "x = of_int m / 2 ^ j" using m by (simp add: field_simps)
  have "\<bar>x\<bar> < pow2 (p - int j)"
  proof -
    have "pow2 (p - int j) * 2 ^ j = pow2 (p - int j) * pow2 (int j)" by (simp add: pow2_def)
    also have "\<dots> = pow2 p" by (simp flip: pow2_add)
    also have "\<dots> = 2 ^ nat p" using p by (simp add: pow2_def)
    finally have "\<bar>x\<bar> * 2 ^ j < pow2 (p - int j) * 2 ^ j" using small by simp
    then show ?thesis by simp
  qed
  moreover have "pow2 (binade x) \<le> \<bar>x\<bar>" using False by (rule binade_bounds)
  ultimately have "pow2 (binade x) < pow2 (p - int j)" by linarith
  then have "binade x < p - int j" by (simp add: pow2_powr)
  with j have e: "e \<le> p - 1 - int j" by (simp add: e_def)
  define d where "d = p - 1 - int j - e"
  have d: "0 \<le> d" using e by (simp add: d_def)
  have "x / u = of_int m * (pow2 (- int j) / pow2 (e - p + 1))"
    by (simp add: x u_def pow2_def field_simps)
  also have "pow2 (- int j) / pow2 (e - p + 1) = pow2 d"
  proof -
    have "pow2 d * pow2 (e - p + 1) = pow2 (- int j)"
      by (simp add: d_def flip: pow2_add)
    then have "pow2 (- int j) / pow2 (e - p + 1) = pow2 d * pow2 (e - p + 1) / pow2 (e - p + 1)"
      by (simp only:)
    then show ?thesis by simp
  qed
  also have "of_int m * pow2 d = of_int (m * 2 ^ nat d)" using d by (simp add: pow2_nat)
  finally have q: "x / u = of_int (m * 2 ^ nat d)" .
  have "of_int (round_even (x / u)) * u = x / u * u"
    by (simp only: q round_even_of_int)
  then have y: "of_int (round_even (x / u)) * u = x"
    by (simp add: u_def)
  have "\<bar>x\<bar> < pow2 (emax + 1)"
  proof -
    have "\<bar>x\<bar> * 2 ^ j < 2 ^ nat p" by (rule small)
    moreover have "\<bar>x\<bar> \<le> \<bar>x\<bar> * 2 ^ j" by (simp add: mult_le_cancel_left1)
    moreover have "(2::real) ^ nat p = pow2 p" using p by (simp add: pow2_def)
    moreover have "pow2 p \<le> pow2 (emax + 1)" using p by (intro pow2_mono) simp
    ultimately show ?thesis by linarith
  qed
  with False y show ?thesis
    by (simp add: round_ieee_def Let_def flip: e_def u_def)
qed

lemma round64_exact:
  assumes "x * 2 ^ j \<in> \<int>" and "\<bar>x\<bar> * 2 ^ j < 9007199254740992" and "j \<le> 1074"
  shows "round64 x = Fin x"
  unfolding round64_def using assms by (intro round_ieee_exact [where j = j]) simp_all

lemma round64_sixteenths:
  assumes "x * 16 \<in> \<int>" and "\<bar>x\<bar> < 65536"
  shows "round64 x = Fin x"
  using assms by (intro round64_exact [where j = 4]) simp_all

lemma round32_exact:
  assumes "x * 2 ^ j \<in> \<int>" and "\<bar>x\<bar> * 2 ^ j < 16777216" and "j \<le> 149"
  shows "round32 x = Fin x"
  unfolding round32_def using assms by (intro round_ieee_exact [where j = j]) simp_all

lemma round32_integer:
  assumes "x \<in> \<int>" and "\<bar>x\<bar> < 16777216"
  shows "round32 x = Fin x"
  using assms by (intro round32_exact [where j = 0]) simp_all

lemma to_double_small: "\<bar>n\<bar> < 65536 \<Longrightarrow> to_double n = Fin (of_int n)"
  unfolding to_double_def by (rule round64_sixteenths) simp_all

section \<open>The loops in closed form\<close>

lemma length_map_range [simp]: "length (map_range f x n d) = length d"
  by (simp add: map_range_def)

lemma nth_map_range [simp]:
  "i < length d \<Longrightarrow> map_range f x n d ! i = (if x \<le> int i \<and> int i < n then f (d ! i) else d ! i)"
  by (simp add: map_range_def)

lemma map_range_step:
  assumes "0 \<le> x" and "x < int (length d)" and "x < n"
  shows "map_range f (x + 1) n (d[nat x := f (d ! nat x)]) = map_range f x n d"
proof (rule nth_equalityI)
  show "length (map_range f (x + 1) n (d[nat x := f (d ! nat x)])) = length (map_range f x n d)"
    by simp
next
  fix i assume "i < length (map_range f (x + 1) n (d[nat x := f (d ! nat x)]))"
  then have i: "i < length d" by simp
  show "map_range f (x + 1) n (d[nat x := f (d ! nat x)]) ! i = map_range f x n d ! i"
  proof (cases "i = nat x")
    case True
    with assms i show ?thesis by simp
  next
    case False
    with assms i have "int i \<noteq> x" by auto
    with assms i False show ?thesis by (auto simp: nth_list_update)
  qed
qed

lemma map_range_empty: "n \<le> x \<Longrightarrow> map_range f x n d = d"
  by (rule nth_equalityI) auto

lemma fill_loop_eq:
  "fill_loop v x n d =
     (if x < n \<and> (x < 0 \<or> int (length d) < n) then Inl OutOfBounds
      else Inr (map_range (\<lambda>_. v) x n d))"
proof (induction v x n d rule: fill_loop.induct)
  case (1 v x n d)
  show ?case
  proof (cases "x < n")
    case False
    then show ?thesis by (simp add: fill_loop.simps [of v x n d] map_range_empty)
  next
    case True
    show ?thesis
    proof (cases "0 \<le> x \<and> x < int (length d)")
      case False
      with True show ?thesis by (auto simp: fill_loop.simps [of v x n d] store_def)
    next
      case inb: True
      then have st: "store d x v = Inr (d[nat x := v])" by (simp add: store_def)
      have "fill_loop v x n d = fill_loop v (x + 1) n (d[nat x := v])"
        using True st by (simp add: fill_loop.simps [of v x n d])
      also have "\<dots> = (if x + 1 < n \<and> (x + 1 < 0 \<or> int (length (d[nat x := v])) < n) then Inl OutOfBounds
          else Inr (map_range (\<lambda>_. v) (x + 1) n (d[nat x := v])))"
        using "1.IH" [OF True st] .
      also have "\<dots> = (if x < n \<and> (x < 0 \<or> int (length d) < n) then Inl OutOfBounds
          else Inr (map_range (\<lambda>_. v) x n d))"
        using True inb map_range_step [where x = x and d = d and f = "\<lambda>_. v" and n = n] by auto
      finally show ?thesis .
    qed
  qed
qed

lemma clamp_loop_eq:
  "clamp_loop T nd lo hi x n d =
     (if x < n \<and> (x < 0 \<or> int (length d) < n) then Inl OutOfBounds
      else Inr (map_range (clampValue T nd lo hi) x n d))"
proof (induction T nd lo hi x n d rule: clamp_loop.induct)
  case (1 T nd lo hi x n d)
  show ?case
  proof (cases "x < n")
    case False
    then show ?thesis by (simp add: clamp_loop.simps [of T nd lo hi x n d] map_range_empty)
  next
    case True
    show ?thesis
    proof (cases "0 \<le> x \<and> x < int (length d)")
      case False
      with True show ?thesis by (auto simp: clamp_loop.simps [of T nd lo hi x n d] load_def)
    next
      case inb: True
      let ?d = "d[nat x := clampValue T nd lo hi (d ! nat x)]"
      from inb have ld: "load d x = Inr (d ! nat x)" by (simp add: load_def)
      from inb have st: "store d x (clampValue T nd lo hi (d ! nat x)) = Inr ?d"
        by (simp add: store_def)
      have "clamp_loop T nd lo hi x n d = clamp_loop T nd lo hi (x + 1) n ?d"
        using True ld st by (simp add: clamp_loop.simps [of T nd lo hi x n d])
      also have "\<dots> = (if x + 1 < n \<and> (x + 1 < 0 \<or> int (length ?d) < n) then Inl OutOfBounds
          else Inr (map_range (clampValue T nd lo hi) (x + 1) n ?d))"
        using "1.IH" [OF True ld st] .
      also have "\<dots> = (if x < n \<and> (x < 0 \<or> int (length d) < n) then Inl OutOfBounds
          else Inr (map_range (clampValue T nd lo hi) x n d))"
        using True inb map_range_step [where x = x and d = d and f = "clampValue T nd lo hi" and n = n] by auto
      finally show ?thesis .
    qed
  qed
qed


lemma clampValue_idem:
  "clamp_ok T lo hi \<Longrightarrow>
     clampValue T nd lo hi (clampValue T nd lo hi v) = clampValue T nd lo hi v"
  by (auto simp: clampValue_def clamp_ok_def split: option.splits)

lemma postProcessBlockRow_None:
  assumes "static_cast T minValue = Some lo" and "static_cast T maxValue = Some hi"
  shows "postProcessBlockRow T row w seg None minValue maxValue =
     (if seg_start seg < seg_end seg \<and> (seg_start seg < 0 \<or> int (length row) < seg_end seg)
      then Inl OutOfBounds
      else Inr (map_range (clampValue T None lo hi) (seg_start seg) (seg_end seg) row))"
  using assms by (simp add: postProcessBlockRow_def clamp_loop_eq)

lemma postProcessBlockRow_Some:
  assumes "static_cast T minValue = Some lo" and "static_cast T maxValue = Some hi"
    and "static_cast T d = Some nd"
  shows "postProcessBlockRow T row w seg (Some d) minValue maxValue =
     (if (0 < seg_start seg \<and> int (length row) < seg_start seg)
         \<or> (seg_start seg < seg_end seg \<and> (seg_start seg < 0 \<or> int (length row) < seg_end seg))
         \<or> (seg_end seg < w \<and> (seg_end seg < 0 \<or> int (length row) < w))
      then Inl OutOfBounds
      else Inr (map_range (\<lambda>_. nd) (seg_end seg) w
             (map_range (clampValue T (Some nd) lo hi) (seg_start seg) (seg_end seg)
               (map_range (\<lambda>_. nd) 0 (seg_start seg) row))))"
  using assms by (auto simp: postProcessBlockRow_def clamp_loop_eq fill_loop_eq)

lemma postProcessBlockRow_length:
  assumes "postProcessBlockRow T row w seg noData minValue maxValue = Inr r"
  shows "length r = length row"
proof -
  from assms obtain lo hi where c: "static_cast T minValue = Some lo" "static_cast T maxValue = Some hi"
    by (auto simp: postProcessBlockRow_def split: option.splits)
  show ?thesis
  proof (cases noData)
    case None
    with assms c show ?thesis
      by (auto simp: postProcessBlockRow_None [OF c] split: if_splits)
  next
    case (Some d)
    with assms c obtain nd where n: "static_cast T d = Some nd"
      by (auto simp: postProcessBlockRow_def split: option.splits)
    from assms Some show ?thesis
      by (auto simp: postProcessBlockRow_Some [OF c n] split: if_splits)
  qed
qed

lemma postProcessBlockRow_idem:
  assumes "postProcessBlockRow T row w seg noData minValue maxValue = Inr r"
    and "range_ok T minValue maxValue"
  shows "postProcessBlockRow T r w seg noData minValue maxValue = Inr r"
proof -
  from assms(1) obtain lo hi where c: "static_cast T minValue = Some lo" "static_cast T maxValue = Some hi"
    by (auto simp: postProcessBlockRow_def split: option.splits)
  with assms(2) have ok: "clamp_ok T lo hi" by (simp add: range_ok_def)
  have len: "length r = length row" using assms(1) by (rule postProcessBlockRow_length)
  show ?thesis
  proof (cases noData)
    case None
    from assms(1) None have
      acc: "\<not> (seg_start seg < seg_end seg \<and> (seg_start seg < 0 \<or> int (length row) < seg_end seg))"
      and r: "r = map_range (clampValue T None lo hi) (seg_start seg) (seg_end seg) row"
      by (auto simp: postProcessBlockRow_None [OF c] split: if_splits)
    have "map_range (clampValue T None lo hi) (seg_start seg) (seg_end seg) r = r"
      by (rule nth_equalityI) (auto simp: r clampValue_idem [OF ok])
    with acc len None show ?thesis
      by (simp add: postProcessBlockRow_None [OF c])
  next
    case (Some d)
    with assms(1) c obtain nd where n: "static_cast T d = Some nd"
      by (auto simp: postProcessBlockRow_def split: option.splits)
    let ?P = "\<lambda>row. map_range (\<lambda>_. nd) (seg_end seg) w
             (map_range (clampValue T (Some nd) lo hi) (seg_start seg) (seg_end seg)
               (map_range (\<lambda>_. nd) 0 (seg_start seg) row))"
    from assms(1) Some have
      acc: "\<not> ((0 < seg_start seg \<and> int (length row) < seg_start seg)
         \<or> (seg_start seg < seg_end seg \<and> (seg_start seg < 0 \<or> int (length row) < seg_end seg))
         \<or> (seg_end seg < w \<and> (seg_end seg < 0 \<or> int (length row) < w)))"
      and r: "r = ?P row"
      by (auto simp: postProcessBlockRow_Some [OF c n] split: if_splits)
    have "?P r = r"
      by (rule nth_equalityI) (auto simp: r clampValue_idem [OF ok])
    with acc len Some show ?thesis
      by (simp add: postProcessBlockRow_Some [OF c n])
  qed
qed


lemma row_view_row_write:
  assumes "length r = length (row_view d off w)"
  shows "row_view (row_write d off r) off w = r"
proof (cases "nat off \<le> length d")
  case True
  then have "drop (nat off) (row_write d off r) = r @ drop (nat off + length r) d"
    by (simp add: row_write_def)
  moreover have "length r = nat w \<or> drop (nat off + length r) d = []"
    using assms by (auto simp: row_view_def min_def split: if_splits)
  moreover have "length r \<le> nat w" using assms by (simp add: row_view_def)
  ultimately show ?thesis by (auto simp: row_view_def)
next
  case False
  with assms show ?thesis by (simp add: row_view_def row_write_def)
qed

lemma row_write_row_view: "row_write d off (row_view d off w) = d"
proof -
  let ?xs = "drop (nat off) d"
  have "take (nat w) ?xs @ drop (length (take (nat w) ?xs)) ?xs = ?xs"
  proof (cases "nat w \<le> length ?xs")
    case True
    then have "length (take (nat w) ?xs) = nat w" by simp
    then show ?thesis by (simp only: append_take_drop_id)
  next
    case False
    then show ?thesis by simp
  qed
  moreover have "drop (nat off + length (take (nat w) ?xs)) d = drop (length (take (nat w) ?xs)) ?xs"
    by (simp only: drop_drop add.commute)
  ultimately show ?thesis by (simp only: row_view_def row_write_def append_take_drop_id)
qed

lemma take_row_write:
  assumes "length r = length (row_view d off w)"
  shows "take (nat off) (row_write d off r) = take (nat off) d"
    and "length (row_write d off r) = length d"
proof -
  have lr: "length r \<le> length d - nat off" using assms by (simp add: row_view_def)
  show "take (nat off) (row_write d off r) = take (nat off) d"
  proof (cases "nat off \<le> length d")
    case True
    then show ?thesis by (simp add: row_write_def)
  next
    case False
    with lr show ?thesis by (simp add: row_write_def)
  qed
  show "length (row_write d off r) = length d"
  proof (cases "nat off \<le> length d")
    case True
    with lr show ?thesis by (simp add: row_write_def)
  next
    case False
    with lr have "r = []" by simp
    with False show ?thesis by (simp add: row_write_def)
  qed
qed

lemma row_view_cong:
  assumes "0 \<le> y" and "take (nat ((y + 1) * bw)) a = take (nat ((y + 1) * bw)) b"
  shows "row_view a (y * bw) bw = row_view b (y * bw) bw"
proof (cases "0 \<le> bw")
  case True
  with assms(1) have eq: "nat ((y + 1) * bw) = nat (y * bw) + nat bw"
    by (simp add: distrib_right nat_add_distrib)
  have "row_view a (y * bw) bw = drop (nat (y * bw)) (take (nat (y * bw) + nat bw) a)"
    by (simp add: row_view_def drop_take)
  also have "\<dots> = drop (nat (y * bw)) (take (nat (y * bw) + nat bw) b)"
    using assms(2) eq by simp
  also have "\<dots> = row_view b (y * bw) bw"
    by (simp add: row_view_def drop_take)
  finally show ?thesis .
next
  case False
  then show ?thesis by (simp add: row_view_def)
qed

lemma nat_mult_mono_row:
  assumes "0 \<le> (y::int)"
  shows "nat (y * bw) \<le> nat ((y + 1) * bw)"
proof (cases "0 \<le> bw")
  case True
  with assms have "y * bw \<le> (y + 1) * bw" by (simp add: mult_right_mono)
  then show ?thesis by simp
next
  case False
  with assms have "y * bw \<le> 0" by (simp add: mult_nonneg_nonpos)
  then show ?thesis by simp
qed

lemma rows_loop_frame:
  assumes "rows_loop T band blockIndex minValue maxValue y d = Inr d'" and "0 \<le> y"
  shows "length d' = length d \<and> take (nat (y * nBlockXSize band)) d' = take (nat (y * nBlockXSize band)) d"
  using assms
proof (induction T band blockIndex minValue maxValue y d rule: rows_loop.induct)
  case (1 T band blockIndex minValue maxValue y d)
  let ?bw = "nBlockXSize band"
  show ?case
  proof (cases "y < nBlockYSize band")
    case False
    with "1.prems" show ?thesis by (simp add: rows_loop.simps [of T band blockIndex minValue maxValue y d])
  next
    case True
    from "1.prems"(1) True obtain seg r where
      seg: "computeBlockRowSegment band blockIndex y = Inr seg"
      and r: "postProcessBlockRow T (row_view d (y * ?bw) ?bw) ?bw seg (noDataValue band) minValue maxValue = Inr r"
      and rec: "rows_loop T band blockIndex minValue maxValue (y + 1) (row_write d (y * ?bw) r) = Inr d'"
      by (auto simp: rows_loop.simps [of T band blockIndex minValue maxValue y d] split: sum.splits)
    have len: "length r = length (row_view d (y * ?bw) ?bw)"
      using r by (rule postProcessBlockRow_length)
    from "1.IH" [OF True seg r rec] "1.prems"(2)
    have ih: "length d' = length (row_write d (y * ?bw) r)"
      "take (nat ((y + 1) * ?bw)) d' = take (nat ((y + 1) * ?bw)) (row_write d (y * ?bw) r)"
      by simp_all
    have "take (nat (y * ?bw)) d' = take (nat (y * ?bw)) (take (nat ((y + 1) * ?bw)) d')"
      using nat_mult_mono_row [OF "1.prems"(2), of ?bw] by (simp add: min_def)
    also have "\<dots> = take (nat (y * ?bw)) (row_write d (y * ?bw) r)"
      using ih(2) nat_mult_mono_row [OF "1.prems"(2), of ?bw] by (simp add: min_def)
    also have "\<dots> = take (nat (y * ?bw)) d"
      using take_row_write(1) [OF len] .
    finally show ?thesis using ih(1) take_row_write(2) [OF len] by simp
  qed
qed

lemma rows_loop_idem:
  assumes "rows_loop T band blockIndex minValue maxValue y d = Inr d'" and "0 \<le> y"
    and "range_ok T minValue maxValue"
  shows "rows_loop T band blockIndex minValue maxValue y d' = Inr d'"
  using assms
proof (induction T band blockIndex minValue maxValue y d rule: rows_loop.induct)
  case (1 T band blockIndex minValue maxValue y d)
  let ?bw = "nBlockXSize band"
  show ?case
  proof (cases "y < nBlockYSize band")
    case False
    then show ?thesis by (simp add: rows_loop.simps [of T band blockIndex minValue maxValue y d'])
  next
    case True
    from "1.prems"(1) True obtain seg r where
      seg: "computeBlockRowSegment band blockIndex y = Inr seg"
      and r: "postProcessBlockRow T (row_view d (y * ?bw) ?bw) ?bw seg (noDataValue band) minValue maxValue = Inr r"
      and rec: "rows_loop T band blockIndex minValue maxValue (y + 1) (row_write d (y * ?bw) r) = Inr d'"
      by (auto simp: rows_loop.simps [of T band blockIndex minValue maxValue y d] split: sum.splits)
    have len: "length r = length (row_view d (y * ?bw) ?bw)"
      using r by (rule postProcessBlockRow_length)
    have y1: "0 \<le> y + 1" using "1.prems"(2) by simp
    have ih: "rows_loop T band blockIndex minValue maxValue (y + 1) d' = Inr d'"
      using "1.IH" [OF True seg r rec y1 "1.prems"(3)] .
    have "take (nat ((y + 1) * ?bw)) d' = take (nat ((y + 1) * ?bw)) (row_write d (y * ?bw) r)"
      using rows_loop_frame [OF rec y1] by simp
    then have "row_view d' (y * ?bw) ?bw = row_view (row_write d (y * ?bw) r) (y * ?bw) ?bw"
      by (rule row_view_cong [OF "1.prems"(2)])
    then have view: "row_view d' (y * ?bw) ?bw = r"
      using row_view_row_write [OF len] by simp
    have again: "postProcessBlockRow T r ?bw seg (noDataValue band) minValue maxValue = Inr r"
      using postProcessBlockRow_idem [OF r "1.prems"(3)] .
    have "row_write d' (y * ?bw) r = d'"
      using row_write_row_view [of d' "y * ?bw" ?bw] view by simp
    with True seg view again ih show ?thesis
      by (simp add: rows_loop.simps [of T band blockIndex minValue maxValue y d'])
  qed
qed


section \<open>Post-processing where every conversion is defined\<close>

lemma with_platform_strict [simp]: "with_platform T strict = T"
  by (cases T) (simp add: with_platform_def strict_def fun_eq_iff split: option.splits)

lemma with_platform_defined:
  "static_cast T d = Some v \<Longrightarrow> static_cast (with_platform T P) d = Some v"
  by (simp add: with_platform_def)

lemma with_platform_compare [simp]:
  "lessThan (with_platform T P) = lessThan T" "equalTo (with_platform T P) = equalTo T"
  by (simp_all add: with_platform_def)

lemma round32_zero [simp]: "round32 0 = Fin 0"
  by (simp add: round32_def round_ieee_def)

lemma round64_zero [simp]: "round64 0 = Fin 0"
  by (simp add: round64_def round_ieee_def)

lemma range_ok_uint8:
  "getValidValuesRange s NaN NaN = (k, mn, mx) \<Longrightarrow> range_ok uint8_t mn mx"
  by (auto simp: getValidValuesRange_def range_ok_def clamp_ok_def uint8_t_def to_integral_def trunc_def
      split: if_splits)

lemma range_ok_int16:
  "getValidValuesRange s NaN NaN = (k, mn, mx) \<Longrightarrow> range_ok int16_t mn mx"
  by (auto simp: getValidValuesRange_def range_ok_def clamp_ok_def int16_t_def to_integral_def trunc_def
      split: if_splits)

lemma range_ok_uint16:
  "getValidValuesRange s NaN NaN = (k, mn, mx) \<Longrightarrow> range_ok uint16_t mn mx"
  by (auto simp: getValidValuesRange_def range_ok_def clamp_ok_def uint16_t_def to_integral_def trunc_def
      split: if_splits)

lemma range_ok_int32:
  "getValidValuesRange s NaN NaN = (k, mn, mx) \<Longrightarrow> range_ok int32_t mn mx"
  by (auto simp: getValidValuesRange_def range_ok_def clamp_ok_def int32_t_def to_integral_def trunc_def
      split: if_splits)

lemma range_ok_uint32:
  "getValidValuesRange s NaN NaN = (k, mn, mx) \<Longrightarrow> range_ok uint32_t mn mx"
  by (auto simp: getValidValuesRange_def range_ok_def clamp_ok_def uint32_t_def to_integral_def trunc_def
      split: if_splits)

lemma range_ok_float:
  "getValidValuesRange s NaN NaN = (k, mn, mx) \<Longrightarrow> range_ok float_t mn mx"
  by (auto simp: getValidValuesRange_def range_ok_def clamp_ok_def float_t_def round32_integer
      split: if_splits)

lemma range_ok_double:
  "getValidValuesRange s NaN NaN = (k, mn, mx) \<Longrightarrow> range_ok double_t mn mx"
  by (auto simp: getValidValuesRange_def range_ok_def clamp_ok_def double_t_def
      split: if_splits)

lemma typed_rows_idem:
  assumes "typed C band (rows_loop T band blockIndex mn mx 0 d) = Inr (band', out)"
    and "range_ok T mn mx"
  shows "\<exists>d'. out = C d' \<and> band' = band \<and> typed C band (rows_loop T band blockIndex mn mx 0 d') = Inr (band', out)"
proof -
  from assms(1) obtain d' where d': "rows_loop T band blockIndex mn mx 0 d = Inr d'"
    and out: "out = C d'" "band' = band"
    by (auto simp: typed_def split: sum.splits)
  have "rows_loop T band blockIndex mn mx 0 d' = Inr d'"
    using rows_loop_idem [OF d' _ assms(2)] by simp
  with out show ?thesis by (intro exI [of _ d']) (simp add: typed_def)
qed

lemma cache_ready:
  assumes "(if rowSegmentsInsidePredictionRadius band0 = []
            then computeRowSegmentsInsidePredictionRadius P band0 else Inr band0) = Inr band"
  shows "(if rowSegmentsInsidePredictionRadius band = []
            then computeRowSegmentsInsidePredictionRadius P band else Inr band) = Inr band"
proof (cases "rowSegmentsInsidePredictionRadius band0 = []")
  case False
  with assms show ?thesis by simp
next
  case True
  with assms have c: "computeRowSegmentsInsidePredictionRadius P band0 = Inr band" by simp
  show ?thesis
  proof (cases "rowSegmentsInsidePredictionRadius band = []")
    case False
    then show ?thesis by simp
  next
    case e: True
    from c obtain segs where "band = band0 \<lparr> rowSegmentsInsidePredictionRadius := segs \<rparr>"
      by (auto simp: computeRowSegmentsInsidePredictionRadius_def split: sum.splits)
    with e True have "band = band0" by simp
    with c e show ?thesis by simp
  qed
qed

lemma postProcessBlock_band:
  assumes "postProcessBlock P band0 blockIndex data = Inr (band', data')"
  shows "(if rowSegmentsInsidePredictionRadius band0 = []
            then computeRowSegmentsInsidePredictionRadius P band0 else Inr band0) = Inr band'"
proof -
  from assms obtain band where
    b: "(if rowSegmentsInsidePredictionRadius band0 = []
            then computeRowSegmentsInsidePredictionRadius P band0 else Inr band0) = Inr band"
    by (auto simp: postProcessBlock_def split: sum.splits)
  obtain k mn mx where g: "getValidValuesRange (sectionNum band) NaN NaN = (k, mn, mx)"
    by (cases "getValidValuesRange (sectionNum band) NaN NaN") auto
  have "band' = band"
    using assms b g by (cases "eDataType band"; cases data) (auto simp: postProcessBlock_def typed_def split: sum.splits)
  with b show ?thesis by simp
qed

lemma postProcessBlock_idem:
  assumes "postProcessBlock strict band0 blockIndex data = Inr (band', data')"
    and b': "(if rowSegmentsInsidePredictionRadius bandX = []
            then computeRowSegmentsInsidePredictionRadius strict bandX else Inr bandX) = Inr band'"
  shows "postProcessBlock strict bandX blockIndex data' = Inr (band', data')"
proof -
  from assms(1) obtain band where
    b: "(if rowSegmentsInsidePredictionRadius band0 = []
            then computeRowSegmentsInsidePredictionRadius strict band0 else Inr band0) = Inr band"
    by (auto simp: postProcessBlock_def split: sum.splits)
  obtain k mn mx where g: "getValidValuesRange (sectionNum band) NaN NaN = (k, mn, mx)"
    by (cases "getValidValuesRange (sectionNum band) NaN NaN") auto
  note ok = range_ok_uint8 [OF g] range_ok_int16 [OF g] range_ok_uint16 [OF g]
    range_ok_int32 [OF g] range_ok_uint32 [OF g] range_ok_float [OF g] range_ok_double [OF g]
  have eq: "band' = band"
    using assms(1) b g by (cases "eDataType band"; cases data) (auto simp: postProcessBlock_def typed_def split: sum.splits)
  show ?thesis
  proof (cases "eDataType band")
    case GDT_Byte
    with b g obtain d where d: "data = ByteData d"
      "typed ByteData band (rows_loop uint8_t band blockIndex mn mx 0 d) = Inr (band', data')"
      using assms(1) by (cases data) (auto simp: postProcessBlock_def)
    from typed_rows_idem [OF d(2) ok(1)] GDT_Byte b' g eq show ?thesis
      by (auto simp: postProcessBlock_def)
  next
    case GDT_Int16
    with b g obtain d where d: "data = Int16Data d"
      "typed Int16Data band (rows_loop int16_t band blockIndex mn mx 0 d) = Inr (band', data')"
      using assms(1) by (cases data) (auto simp: postProcessBlock_def)
    from typed_rows_idem [OF d(2) ok(2)] GDT_Int16 b' g eq show ?thesis
      by (auto simp: postProcessBlock_def)
  next
    case GDT_UInt16
    with b g obtain d where d: "data = UInt16Data d"
      "typed UInt16Data band (rows_loop uint16_t band blockIndex mn mx 0 d) = Inr (band', data')"
      using assms(1) by (cases data) (auto simp: postProcessBlock_def)
    from typed_rows_idem [OF d(2) ok(3)] GDT_UInt16 b' g eq show ?thesis
      by (auto simp: postProcessBlock_def)
  next
    case GDT_Int32
    with b g obtain d where d: "data = Int32Data d"
      "typed Int32Data band (rows_loop int32_t band blockIndex mn mx 0 d) = Inr (band', data')"
      using assms(1) by (cases data) (auto simp: postProcessBlock_def)
    from typed_rows_idem [OF d(2) ok(4)] GDT_Int32 b' g eq show ?thesis
      by (auto simp: postProcessBlock_def)
  next
    case GDT_UInt32
    with b g obtain d where d: "data = UInt32Data d"
      "typed UInt32Data band (rows_loop uint32_t band blockIndex mn mx 0 d) = Inr (band', data')"
      using assms(1) by (cases data) (auto simp: postProcessBlock_def)
    from typed_rows_idem [OF d(2) ok(5)] GDT_UInt32 b' g eq show ?thesis
      by (auto simp: postProcessBlock_def)
  next
    case GDT_Float32
    with b g obtain d where d: "data = Float32Data d"
      "typed Float32Data band (rows_loop float_t band blockIndex mn mx 0 d) = Inr (band', data')"
      using assms(1) by (cases data) (auto simp: postProcessBlock_def)
    from typed_rows_idem [OF d(2) ok(6)] GDT_Float32 b' g eq show ?thesis
      by (auto simp: postProcessBlock_def)
  next
    case GDT_Float64
    with b g obtain d where d: "data = Float64Data d"
      "typed Float64Data band (rows_loop double_t band blockIndex mn mx 0 d) = Inr (band', data')"
      using assms(1) by (cases data) (auto simp: postProcessBlock_def)
    from typed_rows_idem [OF d(2) ok(7)] GDT_Float64 b' g eq show ?thesis
      by (auto simp: postProcessBlock_def)
  qed (use assms(1) b b' g eq in \<open>auto simp: postProcessBlock_def\<close>)
qed

section \<open>Evaluating the example bands\<close>

lemma sqrt_25_16: "sqrt (25 / 16) = 5 / 4"
  by (rule real_sqrt_unique) (simp_all add: power2_eq_square)

lemma sqrt_9_16: "sqrt (9 / 16) = 3 / 4"
  by (rule real_sqrt_unique) (simp_all add: power2_eq_square)

lemma ceiling_minus_quarter: "\<lceil>- (1 / 4) :: real\<rceil> = 0"
  by (rule ceiling_unique) simp_all

lemma ceiling_half: "\<lceil>1 / 2 :: real\<rceil> = 1"
  by (rule ceiling_unique) simp_all

lemma floor_half: "\<lfloor>1 / 2 :: real\<rfloor> = 0"
  by (rule floor_unique) simp_all

lemmas geometry_eval = computeRowSegment_def Let_def to_double_small round64_sixteenths dsub_def
  cast_int_def to_integral_def trunc_def sqrt_25_16 sqrt_9_16 ceiling_minus_quarter ceiling_half
  floor_half

lemma example_rows:
  assumes "predData band = pd_example" and "boundingBox_min_corner band = (Fin (- 1 / 2), Fin 0)"
    and "boundingBox_max_corner band = (Fin (7 / 2), Fin 4)"
  shows "computeRowSegment P band 0 = Inr \<lparr> seg_start = 0, seg_end = 2 \<rparr>"
    and "computeRowSegment P band 1 = Inr \<lparr> seg_start = 0, seg_end = 2 \<rparr>"
    and "computeRowSegment P band 2 = Inr \<lparr> seg_start = 0, seg_end = 0 \<rparr>"
    and "computeRowSegment P band 3 = Inr \<lparr> seg_start = 0, seg_end = 0 \<rparr>"
  using assms by (simp_all add: geometry_eval pd_example_def)

lemma example_cache:
  assumes "predData band = pd_example" and "boundingBox_min_corner band = (Fin (- 1 / 2), Fin 0)"
    and "boundingBox_max_corner band = (Fin (7 / 2), Fin 4)" and "nRasterYSize band = 4"
    and "rowSegmentsInsidePredictionRadius band = []"
  shows "computeRowSegmentsInsidePredictionRadius P band =
     Inr (band \<lparr> rowSegmentsInsidePredictionRadius := segs_example \<rparr>)"
proof -
  note rows = example_rows [OF assms(1-3)]
  have "computeRowSegments_loop P band 0 (replicate 4 \<lparr> seg_start = 0, seg_end = 0 \<rparr>) = Inr segs_example"
    using assms(4) rows
    by (simp add: computeRowSegments_loop.simps [of P band] store_def segs_example_def eval_nat_numeral)
  with assms(4,5) show ?thesis
    by (simp add: computeRowSegmentsInsidePredictionRadius_def resize_def)
qed

lemma band_int16_cache:
  "computeRowSegmentsInsidePredictionRadius P band_int16 =
     Inr (band_int16 \<lparr> rowSegmentsInsidePredictionRadius := segs_example \<rparr>)"
  by (rule example_cache) (simp_all add: band_int16_def RasterBand_new_def)

lemma band_int16_fields:
  "eDataType band_int16 = GDT_Int16" "nBlockXSize band_int16 = 2" "nBlockYSize band_int16 = 2"
  "sectionNum band_int16 = 0" "noDataValue band_int16 = Some (Fin (- 9999))"
  "rowSegmentsInsidePredictionRadius band_int16 = []"
  by (simp_all add: band_int16_def RasterBand_new_def getNoDataValue_def)

lemmas row_eval = postProcessBlockRow_def fill_loop.simps clamp_loop.simps load_def store_def
  clampValue_def to_integral_def trunc_def with_platform_def

lemma scenario_int16:
  "postProcessBlock P band_int16 (0, 0) (Int16Data [300, - 50, 1000, 5]) =
     Inr (band_int16 \<lparr> rowSegmentsInsidePredictionRadius := segs_example \<rparr>, Int16Data [200, 0, 200, 5])"
  by (simp add: postProcessBlock_def band_int16_cache band_int16_fields getValidValuesRange_def
      typed_def rows_loop.simps computeBlockRowSegment_def segs_example_def row_view_def row_write_def
      int16_t_def row_eval)

section \<open>The concrete scenario of the specification\<close>

text \<open>
  Claim C9. In section 0 (valid range 0 to 200), with 16-bit signed pixels and the no-data
  value -9999, the block (0,0) of 2 by 2 pixels with the values 300, -50 in its first row
  and 1000, 5 in its second, whose two rows have the block-local coverage segment \<open>[0,2)\<close>,
  is post-processed to 200, 0 and 200, 5: every value is clamped into the range and no
  pixel is overwritten with the no-data value. The band builds its cache of row segments in
  this call. No conversion of the call is undefined, so the result is that of every
  platform.
\<close>

theorem C9_concrete_scenario:
  "computeBlockRowSegment (band_int16 \<lparr> rowSegmentsInsidePredictionRadius := segs_example \<rparr>) (0, 0) 0
     = Inr \<lparr> seg_start = 0, seg_end = 2 \<rparr>
   \<and> computeBlockRowSegment (band_int16 \<lparr> rowSegmentsInsidePredictionRadius := segs_example \<rparr>) (0, 0) 1
     = Inr \<lparr> seg_start = 0, seg_end = 2 \<rparr>
   \<and> getValidValuesRange (sectionNum band_int16) NaN NaN = (True, Fin 0, Fin 200)
   \<and> postProcessBlock P band_int16 (0, 0) (Int16Data [300, - 50, 1000, 5])
     = Inr (band_int16 \<lparr> rowSegmentsInsidePredictionRadius := segs_example \<rparr>,
            Int16Data [200, 0, 200, 5])"
  by (simp add: scenario_int16 computeBlockRowSegment_def load_def segs_example_def band_int16_fields
      getValidValuesRange_def)

section \<open>Idempotence of the post-processing\<close>

text \<open>
  Where no conversion is undefined (the platform \<open>strict\<close> delivers nothing for one that
  is), post-processing is idempotent: when \<^verbatim>\<open>postProcessBlock\<close> has produced a buffer,
  applying it to that buffer again gives the same buffer, with the band as the first call
  left it and also with the band as it was before the first call. This covers the two
  floating encodings in every section (their bounds without a range stay NaN) and the
  integer encodings whose type represents both bounds and the no-data value.
\<close>

lemma postProcessBlock_idempotent_defined:
  assumes "postProcessBlock strict band blockIndex data = Inr (band', data')"
  shows "postProcessBlock strict band' blockIndex data' = Inr (band', data')
     \<and> postProcessBlock strict band blockIndex data' = Inr (band', data')"
proof
  show "postProcessBlock strict band' blockIndex data' = Inr (band', data')"
    using assms cache_ready [OF postProcessBlock_band [OF assms]] by (rule postProcessBlock_idem)
  show "postProcessBlock strict band blockIndex data' = Inr (band', data')"
    using assms postProcessBlock_band [OF assms] by (rule postProcessBlock_idem)
qed

text \<open>
  In a section without a valid range both bounds are NaN. On a platform where the
  conversion of a NaN to the pixel type yields a value, both typed bounds are that value,
  and processing a row twice is processing it once.
\<close>

lemma idempotent_without_range:
  assumes "postProcessBlockRow (with_undefined T f) row w seg noData NaN NaN = Inr r"
    and "\<And>v. \<not> lessThan T v v"
  shows "postProcessBlockRow (with_undefined T f) r w seg noData NaN NaN = Inr r"
proof -
  have "range_ok (with_undefined T f) NaN NaN"
    using assms(2) by (auto simp: range_ok_def clamp_ok_def with_undefined_def)
  with assms(1) show ?thesis by (rule postProcessBlockRow_idem)
qed

lemma band_byte_section1_cache:
  "computeRowSegmentsInsidePredictionRadius P band_byte_section1 =
     Inr (band_byte_section1 \<lparr> rowSegmentsInsidePredictionRadius := segs_example \<rparr>)"
  by (rule example_cache) (simp_all add: band_byte_section1_def RasterBand_new_def)

lemma band_byte_section1_fields:
  "eDataType band_byte_section1 = GDT_Byte" "nBlockXSize band_byte_section1 = 2"
  "nBlockYSize band_byte_section1 = 2"
  "sectionNum band_byte_section1 = 1" "noDataValue band_byte_section1 = Some (Fin 200)"
  "rowSegmentsInsidePredictionRadius band_byte_section1 = []"
  by (simp_all add: band_byte_section1_def RasterBand_new_def getNoDataValue_def)

lemma uint8_compare:
  "lessThan uint8_t = (\<lambda>a b. a < b)" "equalTo uint8_t = (\<lambda>a b. a = b)"
  by (simp_all add: uint8_t_def)

lemma section1_byte_bounds:
  "static_cast uint8_t (Fin (- 18000)) = None" "static_cast uint8_t (Fin 18000) = None"
  "static_cast (with_platform uint8_t cvttsd2si) (Fin (- 18000)) = Some 176"
  "static_cast (with_platform uint8_t cvttsd2si) (Fin 18000) = Some 80"
  "static_cast (with_platform uint8_t cvttsd2si) (Fin 200) = Some 200"
  by (simp_all add: with_platform_def uint8_t_def cvttsd2si_def to_integral_def trunc_def)

lemma section1_byte_first:
  "postProcessBlock cvttsd2si band_byte_section1 (0, 0) (ByteData [10, 176, 10, 176]) =
     Inr (band_byte_section1 \<lparr> rowSegmentsInsidePredictionRadius := segs_example \<rparr>,
          ByteData [176, 80, 176, 80])"
  by (simp add: postProcessBlock_def band_byte_section1_cache band_byte_section1_fields
      getValidValuesRange_def typed_def rows_loop.simps computeBlockRowSegment_def segs_example_def
      row_view_def row_write_def postProcessBlockRow_def section1_byte_bounds fill_loop.simps
      clamp_loop.simps load_def store_def clampValue_def uint8_compare)

lemma section1_byte_second:
  "postProcessBlock cvttsd2si
       (band_byte_section1 \<lparr> rowSegmentsInsidePredictionRadius := segs_example \<rparr>) (0, 0)
       (ByteData [176, 80, 176, 80]) =
     Inr (band_byte_section1 \<lparr> rowSegmentsInsidePredictionRadius := segs_example \<rparr>,
          ByteData [80, 176, 80, 176])"
  by (simp add: postProcessBlock_def band_byte_section1_fields
      getValidValuesRange_def typed_def rows_loop.simps computeBlockRowSegment_def segs_example_def
      row_view_def row_write_def postProcessBlockRow_def section1_byte_bounds fill_loop.simps
      clamp_loop.simps load_def store_def clampValue_def uint8_compare)

lemma section1_byte_strict:
  "postProcessBlock strict band_byte_section1 (0, 0) (ByteData [10, 176, 10, 176])
     = Inl UndefinedConversion"
  by (simp add: postProcessBlock_def band_byte_section1_cache band_byte_section1_fields
      getValidValuesRange_def typed_def rows_loop.simps computeBlockRowSegment_def segs_example_def
      row_view_def row_write_def postProcessBlockRow_def section1_byte_bounds load_def)

text \<open>
  Claim C8 fails on the code for a band of bytes in section 1, whose valid range is -18000
  to 18000. \<^verbatim>\<open>postProcessBlockRow\<close> converts both bounds to the pixel type, and a byte
  represents neither: the behaviour of the two conversions is undefined. On x86-64 they
  yield the low bytes 176 and 80 of the truncated values, a lower bound above the upper
  bound. The covered pixels 10 and 176 of a row, neither of which is the no-data value 200,
  become 176 and 80; post-processing the buffer so produced again turns them into 80 and
  176: the second application changes every pixel of the buffer.
\<close>

theorem C8_section1_bytes_not_idempotent:
  "getValidValuesRange (sectionNum band_byte_section1) NaN NaN = (True, Fin (- 18000), Fin 18000)
   \<and> static_cast uint8_t (Fin (- 18000)) = None
   \<and> static_cast uint8_t (Fin 18000) = None
   \<and> postProcessBlock strict band_byte_section1 (0, 0) (ByteData [10, 176, 10, 176])
      = Inl UndefinedConversion
   \<and> static_cast (with_platform uint8_t cvttsd2si) (Fin (- 18000)) = Some 176
   \<and> static_cast (with_platform uint8_t cvttsd2si) (Fin 18000) = Some 80
   \<and> postProcessBlock cvttsd2si band_byte_section1 (0, 0) (ByteData [10, 176, 10, 176])
      = Inr (band_byte_section1 \<lparr> rowSegmentsInsidePredictionRadius := segs_example \<rparr>,
             ByteData [176, 80, 176, 80])
   \<and> postProcessBlock cvttsd2si
        (band_byte_section1 \<lparr> rowSegmentsInsidePredictionRadius := segs_example \<rparr>) (0, 0)
        (ByteData [176, 80, 176, 80])
      = Inr (band_byte_section1 \<lparr> rowSegmentsInsidePredictionRadius := segs_example \<rparr>,
             ByteData [80, 176, 80, 176])"
  by (simp only: section1_byte_bounds section1_byte_first section1_byte_second
      section1_byte_strict band_byte_section1_fields getValidValuesRange_def)
    simp

section \<open>The columns a row's loops touch\<close>




lemma postProcessBlockRow_untouched:
  assumes "postProcessBlockRow T row w seg noData minValue maxValue = Inr r"
    and "i < length row" and "int i \<notin> set (touchedColumns w seg noData)"
  shows "r ! i = row ! i"
proof -
  from assms(1) obtain lo hi where c: "static_cast T minValue = Some lo" "static_cast T maxValue = Some hi"
    by (auto simp: postProcessBlockRow_def split: option.splits)
  show ?thesis
  proof (cases noData)
    case None
    with assms show ?thesis
      by (auto simp: postProcessBlockRow_None [OF c] touchedColumns_def split: if_splits)
  next
    case (Some d)
    with assms(1) c obtain nd where n: "static_cast T d = Some nd"
      by (auto simp: postProcessBlockRow_def split: option.splits)
    from assms Some show ?thesis
      by (auto simp: postProcessBlockRow_Some [OF c n] touchedColumns_def split: if_splits)
  qed
qed

lemma postProcessBlockRow_in_bounds:
  assumes "static_cast T minValue = Some lo" and "static_cast T maxValue = Some hi"
    and "\<And>d. noData = Some d \<Longrightarrow> static_cast T d \<noteq> None"
  shows "(\<exists>r. postProcessBlockRow T row w seg noData minValue maxValue = Inr r)
     \<longleftrightarrow> set (touchedColumns w seg noData) \<subseteq> {0..int (length row) - 1}"
proof (cases noData)
  case None
  then show ?thesis
    by (auto simp: postProcessBlockRow_None [OF assms(1,2)] touchedColumns_def)
next
  case (Some d)
  with assms(3) obtain nd where n: "static_cast T d = Some nd" by auto
  have "(\<exists>r. postProcessBlockRow T row w seg (Some d) minValue maxValue = Inr r)
      \<longleftrightarrow> \<not> ((0 < seg_start seg \<and> int (length row) < seg_start seg)
         \<or> (seg_start seg < seg_end seg \<and> (seg_start seg < 0 \<or> int (length row) < seg_end seg))
         \<or> (seg_end seg < w \<and> (seg_end seg < 0 \<or> int (length row) < w)))"
    by (simp add: postProcessBlockRow_Some [OF assms(1,2) n])
  also have "\<dots> \<longleftrightarrow> {0..seg_start seg - 1} \<subseteq> {0..int (length row) - 1}
      \<and> {seg_start seg..seg_end seg - 1} \<subseteq> {0..int (length row) - 1}
      \<and> {seg_end seg..w - 1} \<subseteq> {0..int (length row) - 1}"
    by (simp only: atLeastatMost_subset_iff) linarith
  also have "\<dots> \<longleftrightarrow> set (touchedColumns w seg (Some d)) \<subseteq> {0..int (length row) - 1}"
    by (simp add: touchedColumns_def)
  finally show ?thesis by (simp only: Some)
qed






section \<open>Reading the cache of row segments\<close>

lemma band_3rows_cache:
  "computeRowSegmentsInsidePredictionRadius P band_3rows =
     Inr (band_3rows \<lparr> rowSegmentsInsidePredictionRadius := segs_3rows \<rparr>)"
proof -
  have rows: "computeRowSegment P band_3rows 0 = Inr \<lparr> seg_start = 0, seg_end = 2 \<rparr>"
    "computeRowSegment P band_3rows 1 = Inr \<lparr> seg_start = 0, seg_end = 0 \<rparr>"
    "computeRowSegment P band_3rows 2 = Inr \<lparr> seg_start = 0, seg_end = 0 \<rparr>"
    by (simp_all add: geometry_eval band_3rows_def RasterBand_new_def pd_example_def)
  have n: "nRasterYSize band_3rows = 3" "rowSegmentsInsidePredictionRadius band_3rows = []"
    by (simp_all add: band_3rows_def RasterBand_new_def)
  have "computeRowSegments_loop P band_3rows 0 (replicate 3 \<lparr> seg_start = 0, seg_end = 0 \<rparr>) = Inr segs_3rows"
    using n rows
    by (simp add: computeRowSegments_loop.simps [of P band_3rows] store_def segs_3rows_def eval_nat_numeral)
  with n show ?thesis
    by (simp add: computeRowSegmentsInsidePredictionRadius_def resize_def)
qed

lemma band_3rows_fields:
  "eDataType band_3rows = GDT_Byte" "nBlockXSize band_3rows = 2" "nBlockYSize band_3rows = 2"
  "sectionNum band_3rows = 0" "noDataValue band_3rows = Some (Fin 200)"
  "rowSegmentsInsidePredictionRadius band_3rows = []" "nRasterYSize band_3rows = 3"
  "nBlocksPerRow band_3rows = 2" "nBlocksPerColumn band_3rows = 2"
  by (simp_all add: band_3rows_def RasterBand_new_def getNoDataValue_def DIV_ROUND_UP_def)

text \<open>
  Claim C6 fails on the code. A raster of 3 rows in blocks of 2 rows has 2 block rows, so
  the block (0,1) is in range. The cache has one entry per raster row, 3 entries; for
  \<open>y = 1\<close> the post-processing of that block reads the entry of index 1 * 2 + 1 = 3, which is
  outside the cache. No conversion of the call is undefined: this is so on every platform.
\<close>

theorem C6_bottom_block_reads_past_cache:
  "0 \<le> fst (0::int, 1::int) \<and> fst (0::int, 1::int) < nBlocksPerRow band_3rows
   \<and> 0 \<le> snd (0::int, 1::int) \<and> snd (0::int, 1::int) < nBlocksPerColumn band_3rows
   \<and> computeRowSegmentsInsidePredictionRadius P band_3rows
      = Inr (band_3rows \<lparr> rowSegmentsInsidePredictionRadius := segs_3rows \<rparr>)
   \<and> int (length segs_3rows) = nRasterYSize band_3rows
   \<and> snd (0::int, 1::int) * nBlockYSize band_3rows + 1 = nRasterYSize band_3rows
   \<and> computeBlockRowSegment (band_3rows \<lparr> rowSegmentsInsidePredictionRadius := segs_3rows \<rparr>) (0, 1) 1
      = Inl OutOfBounds
   \<and> postProcessBlock P band_3rows (0, 1) (ByteData [1, 2, 3, 4]) = Inl OutOfBounds"
  by (simp add: postProcessBlock_def band_3rows_cache band_3rows_fields getValidValuesRange_def
      typed_def rows_loop.simps computeBlockRowSegment_def segs_3rows_def row_view_def row_write_def
      uint8_t_def row_eval)

section \<open>Sections without a valid range\<close>

lemma band_byte_section2_cache:
  "computeRowSegmentsInsidePredictionRadius P band_byte_section2 =
     Inr (band_byte_section2 \<lparr> rowSegmentsInsidePredictionRadius := segs_example \<rparr>)"
  by (rule example_cache) (simp_all add: band_byte_section2_def RasterBand_new_def)

lemma band_byte_section2_fields:
  "eDataType band_byte_section2 = GDT_Byte" "nBlockXSize band_byte_section2 = 2"
  "nBlockYSize band_byte_section2 = 2"
  "sectionNum band_byte_section2 = 2" "noDataValue band_byte_section2 = Some (Fin 200)"
  "rowSegmentsInsidePredictionRadius band_byte_section2 = []"
  by (simp_all add: band_byte_section2_def RasterBand_new_def getNoDataValue_def)

lemma undefined_bounds_overwrite:
  "postProcessBlockRow (with_undefined uint8_t f) [0, 1] 2 \<lparr> seg_start = 0, seg_end = 2 \<rparr>
     (Some (Fin 200)) NaN NaN = Inr [f NaN, f NaN]"
proof -
  let ?T = "with_undefined uint8_t f"
  define c where "c = f NaN"
  have c: "static_cast ?T NaN = Some c" "static_cast ?T (Fin 200) = Some 200"
    by (simp_all add: with_undefined_def uint8_t_def to_integral_def trunc_def c_def)
  have lt: "lessThan ?T = (\<lambda>a b. a < b)" "equalTo ?T = (\<lambda>a b. a = b)"
    by (simp_all add: with_undefined_def uint8_t_def)
  have "0 < c \<or> c = 0" by (simp add: word_gt_0)
  then have "clampValue ?T (Some 200) c c 0 = c"
    by (auto simp: clampValue_def lt)
  moreover have "clampValue ?T (Some 200) c c 1 = c"
    by (auto simp: clampValue_def lt not_less_iff_gr_or_eq)
  ultimately show ?thesis
    by (simp add: postProcessBlockRow_Some [OF c(1) c(1) c(2)] map_range_def c_def)
qed

lemma section2_byte_strict:
  "postProcessBlock strict band_byte_section2 (0, 0) (ByteData [0, 1, 2, 3]) = Inl UndefinedConversion"
  by (simp add: postProcessBlock_def band_byte_section2_cache
      band_byte_section2_fields getValidValuesRange_def typed_def rows_loop.simps
      computeBlockRowSegment_def segs_example_def row_view_def row_write_def uint8_t_def row_eval
      strict_def)

lemma section2_byte_bounds:
  "static_cast (with_platform uint8_t cvttsd2si) NaN = Some 0"
  "static_cast (with_platform uint8_t cvttsd2si) (Fin 200) = Some 200"
  by (simp_all add: with_platform_def uint8_t_def cvttsd2si_def to_integral_def trunc_def)

lemma section2_byte_cvttsd2si:
  "postProcessBlock cvttsd2si band_byte_section2 (0, 0) (ByteData [0, 1, 2, 3]) =
     Inr (band_byte_section2 \<lparr> rowSegmentsInsidePredictionRadius := segs_example \<rparr>,
          ByteData [0, 0, 0, 0])"
  by (simp add: postProcessBlock_def band_byte_section2_cache band_byte_section2_fields
      getValidValuesRange_def typed_def rows_loop.simps computeBlockRowSegment_def segs_example_def
      row_view_def row_write_def postProcessBlockRow_def section2_byte_bounds fill_loop.simps
      clamp_loop.simps load_def store_def clampValue_def uint8_compare)

text \<open>
  Claim C1 fails on the code for the integer encodings. In a section without a valid range
  the two bounds stay NaN, and \<^verbatim>\<open>postProcessBlockRow\<close> converts them to the pixel type before
  its loops: for an integer type the behaviour of that conversion is undefined. Here a band
  of bytes in section 2, whose rows 0 and 1 are covered in the columns 0 and 1: the
  post-processing of its block (0,0) meets the undefined conversion. And on a platform
  where the conversion of a NaN yields some byte, the covered pixels 0 and 1 of a row,
  neither of which is the no-data value 200, both become that byte: one of them at least
  has changed. On x86-64 the byte is 0, and the block of the pixels 0, 1, 2 and 3, all of
  them covered and none the no-data value, becomes a block of zeros.
\<close>

theorem C1_no_range_integer_encoding:
  "getValidValuesRange (sectionNum band_byte_section2) NaN NaN = (False, NaN, NaN)
   \<and> static_cast uint8_t NaN = None
   \<and> computeBlockRowSegment
        (band_byte_section2 \<lparr> rowSegmentsInsidePredictionRadius := segs_example \<rparr>) (0, 0) 0
      = Inr \<lparr> seg_start = 0, seg_end = 2 \<rparr>
   \<and> postProcessBlock strict band_byte_section2 (0, 0) (ByteData [0, 1, 2, 3])
      = Inl UndefinedConversion
   \<and> postProcessBlockRow (with_undefined uint8_t f) [0, 1] 2 \<lparr> seg_start = 0, seg_end = 2 \<rparr>
        (Some (Fin 200)) NaN NaN = Inr [f NaN, f NaN]
   \<and> postProcessBlock cvttsd2si band_byte_section2 (0, 0) (ByteData [0, 1, 2, 3])
      = Inr (band_byte_section2 \<lparr> rowSegmentsInsidePredictionRadius := segs_example \<rparr>,
             ByteData [0, 0, 0, 0])"
proof -
  have "getValidValuesRange (sectionNum band_byte_section2) NaN NaN = (False, NaN, NaN)
   \<and> static_cast uint8_t NaN = None
   \<and> computeBlockRowSegment
        (band_byte_section2 \<lparr> rowSegmentsInsidePredictionRadius := segs_example \<rparr>) (0, 0) 0
      = Inr \<lparr> seg_start = 0, seg_end = 2 \<rparr>"
    by (simp add: band_byte_section2_fields getValidValuesRange_def
      computeBlockRowSegment_def segs_example_def uint8_t_def to_integral_def load_def)
  with undefined_bounds_overwrite [of f] section2_byte_strict section2_byte_cvttsd2si
  show ?thesis by (simp only: simp_thms)
qed

text \<open>
  In general: whatever value \<open>c\<close> the conversion of the two NaN bounds yields, a pixel that
  differs from it (and from the no-data value) is overwritten with it; only for the
  floating encodings, where the bounds remain NaN, every comparison fails and the pixel is
  kept.
\<close>

lemma clampValue_single_bound:
  assumes "lessThan T v c \<or> lessThan T c v"
    and "case nd of None \<Rightarrow> True | Some n \<Rightarrow> \<not> equalTo T v n"
  shows "clampValue T nd c c v = c"
  using assms by (auto simp: clampValue_def split: option.splits)

lemma clampValue_NaN_bounds:
  "clampValue float_t nd NaN NaN v = v" "clampValue double_t nd NaN NaN v = v"
  by (simp_all add: clampValue_def float_t_def double_t_def)

section \<open>A transmitter whose coordinates are not binary fractions\<close>
















section \<open>The row segments inside the prediction radius\<close>

text \<open>
  The cache that \<^verbatim>\<open>computeRowSegmentsInsidePredictionRadius\<close> builds has one entry per
  raster row, the segment that the body of the loop computes for the row. It is built when
  the body has a result for every row, that is when no conversion to \<^verbatim>\<open>int\<close> is left
  without a value by the platform and no addition overflows; on x86-64 every conversion
  has a value.
\<close>

lemma computeRowSegments_loop_Inr:
  assumes "computeRowSegments_loop P band i segs = Inr segs'" and "0 \<le> i"
    and "int (length segs) = nRasterYSize band"
  shows "length segs' = length segs
     \<and> (\<forall>r. i \<le> r \<and> r < nRasterYSize band \<longrightarrow> computeRowSegment P band r = Inr (segs' ! nat r))
     \<and> (\<forall>r. 0 \<le> r \<and> r < i \<longrightarrow> segs' ! nat r = segs ! nat r)"
  using assms
proof (induction P band i segs rule: computeRowSegments_loop.induct)
  case (1 P band i segs)
  show ?case
  proof (cases "i < nRasterYSize band")
    case False
    with "1.prems" show ?thesis by (auto simp: computeRowSegments_loop.simps [of P band i segs])
  next
    case True
    from "1.prems"(1) True obtain seg where seg: "computeRowSegment P band i = Inr seg"
      by (auto simp: computeRowSegments_loop.simps [of P band i segs] split: sum.splits)
    from True "1.prems" have st: "store segs i seg = Inr (segs[nat i := seg])"
      by (simp add: store_def)
    have run: "computeRowSegments_loop P band (i + 1) (segs[nat i := seg]) = Inr segs'"
      using "1.prems"(1) True seg st by (simp add: computeRowSegments_loop.simps [of P band i segs])
    have len: "int (length (segs[nat i := seg])) = nRasterYSize band"
      using "1.prems"(3) by simp
    from "1.IH" [OF True seg st run _ len] "1.prems"(2)
    have l: "length segs' = length segs"
      and a: "\<And>r. i + 1 \<le> r \<Longrightarrow> r < nRasterYSize band \<Longrightarrow> computeRowSegment P band r = Inr (segs' ! nat r)"
      and b: "\<And>r. 0 \<le> r \<Longrightarrow> r < i + 1 \<Longrightarrow> segs' ! nat r = (segs[nat i := seg]) ! nat r"
      by auto
    have here: "segs' ! nat i = seg"
      using b [of i] "1.prems"(2,3) True by simp
    have after: "computeRowSegment P band r = Inr (segs' ! nat r)" if "i \<le> r" "r < nRasterYSize band" for r
    proof (cases "r = i")
      case True
      with seg here show ?thesis by simp
    next
      case False
      with that a [of r] show ?thesis by simp
    qed
    have before: "segs' ! nat r = segs ! nat r" if "0 \<le> r" "r < i" for r
    proof -
      from that have "nat r \<noteq> nat i" by simp
      with b [of r] that show ?thesis by simp
    qed
    from l after before show ?thesis by blast
  qed
qed

lemma computeRowSegments_loop_returns:
  assumes "\<forall>r. i \<le> r \<and> r < nRasterYSize band \<longrightarrow> (\<exists>seg. computeRowSegment P band r = Inr seg)"
    and "0 \<le> i" and "int (length segs) = nRasterYSize band"
  shows "\<exists>segs'. computeRowSegments_loop P band i segs = Inr segs'"
  using assms
proof (induction P band i segs rule: computeRowSegments_loop.induct)
  case (1 P band i segs)
  show ?case
  proof (cases "i < nRasterYSize band")
    case False
    then show ?thesis by (simp add: computeRowSegments_loop.simps [of P band i segs])
  next
    case True
    with "1.prems"(1) obtain seg where seg: "computeRowSegment P band i = Inr seg" by auto
    from True "1.prems" have st: "store segs i seg = Inr (segs[nat i := seg])"
      by (simp add: store_def)
    have len: "int (length (segs[nat i := seg])) = nRasterYSize band"
      using "1.prems"(3) by simp
    have rest: "\<forall>r. i + 1 \<le> r \<and> r < nRasterYSize band \<longrightarrow> (\<exists>seg. computeRowSegment P band r = Inr seg)"
      using "1.prems"(1) by auto
    from "1.IH" [OF True seg st rest _ len] "1.prems"(2)
    obtain segs' where "computeRowSegments_loop P band (i + 1) (segs[nat i := seg]) = Inr segs'"
      by auto
    with True seg st show ?thesis by (simp add: computeRowSegments_loop.simps [of P band i segs])
  qed
qed

lemma computeRowSegments_Inr:
  assumes "computeRowSegmentsInsidePredictionRadius P band = Inr band'"
  shows "int (length (rowSegmentsInsidePredictionRadius band')) = nRasterYSize band
     \<and> (\<forall>r. 0 \<le> r \<and> r < nRasterYSize band \<longrightarrow>
           computeRowSegment P band r = Inr (rowSegmentsInsidePredictionRadius band' ! nat r))"
proof -
  let ?segs = "take (nat (nRasterYSize band)) (rowSegmentsInsidePredictionRadius band)
      @ replicate (nat (nRasterYSize band) - length (rowSegmentsInsidePredictionRadius band))
          \<lparr> seg_start = 0, seg_end = 0 \<rparr>"
  from assms have n: "0 \<le> nRasterYSize band"
    by (auto simp: computeRowSegmentsInsidePredictionRadius_def resize_def split: if_splits)
  then have rs: "resize (nRasterYSize band) (rowSegmentsInsidePredictionRadius band) = Inr ?segs"
    by (simp add: resize_def)
  with assms obtain segs' where run: "computeRowSegments_loop P band 0 ?segs = Inr segs'"
    and b: "band' = band \<lparr> rowSegmentsInsidePredictionRadius := segs' \<rparr>"
    by (auto simp: computeRowSegmentsInsidePredictionRadius_def split: sum.splits)
  have len: "int (length ?segs) = nRasterYSize band"
    using n by (simp add: min_def)
  from computeRowSegments_loop_Inr [OF run _ len] len b show ?thesis by simp
qed

lemma computeRowSegments_returns:
  assumes "0 \<le> nRasterYSize band"
    and "\<forall>r. 0 \<le> r \<and> r < nRasterYSize band \<longrightarrow> (\<exists>seg. computeRowSegment P band r = Inr seg)"
  shows "\<exists>band'. computeRowSegmentsInsidePredictionRadius P band = Inr band'"
proof -
  let ?segs = "take (nat (nRasterYSize band)) (rowSegmentsInsidePredictionRadius band)
      @ replicate (nat (nRasterYSize band) - length (rowSegmentsInsidePredictionRadius band))
          \<lparr> seg_start = 0, seg_end = 0 \<rparr>"
  have rs: "resize (nRasterYSize band) (rowSegmentsInsidePredictionRadius band) = Inr ?segs"
    using assms(1) by (simp add: resize_def)
  have len: "int (length ?segs) = nRasterYSize band"
    using assms(1) by (simp add: min_def)
  from computeRowSegments_loop_returns [OF assms(2) _ len]
  obtain segs' where "computeRowSegments_loop P band 0 ?segs = Inr segs'" by auto
  with rs show ?thesis by (simp add: computeRowSegmentsInsidePredictionRadius_def)
qed

lemma cast_int_cvttsd2si: "\<exists>v. cast_int cvttsd2si d = Some v"
  by (simp add: cast_int_def cvttsd2si_def split: option.splits)

lemma computeRowSegment_cvttsd2si:
  "(\<exists>seg. computeRowSegment cvttsd2si band r = Inr seg)
     \<or> computeRowSegment cvttsd2si band r = Inl SignedOverflow"
proof -
  have t: "(cast_int cvttsd2si d = None) = False" for d
    using cast_int_cvttsd2si [of d] by auto
  show ?thesis
    by (auto simp: computeRowSegment_def Let_def t split: option.splits)
qed

lemma single_row_cache:
  assumes "computeRowSegment P band 0 = Inr seg" and "nRasterYSize band = 1"
    and "rowSegmentsInsidePredictionRadius band = []"
  shows "computeRowSegmentsInsidePredictionRadius P band
     = Inr (band \<lparr> rowSegmentsInsidePredictionRadius := [seg] \<rparr>)"
proof -
  have "computeRowSegments_loop P band 0 [\<lparr> seg_start = 0, seg_end = 0 \<rparr>] = Inr [seg]"
    using assms(1,2) by (simp add: computeRowSegments_loop.simps [of P band] store_def)
  with assms(2,3) show ?thesis
    by (simp add: computeRowSegmentsInsidePredictionRadius_def resize_def)
qed

text \<open>
  Where the ceiling of a quotient \<open>q\<close> is in the range of \<^verbatim>\<open>int\<close>, its conversion is that
  ceiling, the smallest integer at or above \<open>q\<close>; and likewise for the floor.
\<close>

lemma trunc_of_int: "trunc (real_of_int n) = n"
  by (simp add: trunc_def)

lemma cast_int_ceil:
  assumes "cast_int P (std_ceil (Fin q)) = Some s"
    and "- 2147483648 \<le> \<lceil>q\<rceil>" and "\<lceil>q\<rceil> \<le> 2147483647"
  shows "s = \<lceil>q\<rceil>" and "(s \<le> c) = (q \<le> real_of_int c)"
proof -
  show s: "s = \<lceil>q\<rceil>"
    using assms by (simp add: cast_int_def to_integral_def trunc_of_int)
  show "(s \<le> c) = (q \<le> real_of_int c)"
    by (simp only: s ceiling_le_iff)
qed

lemma cast_int_floor:
  assumes "cast_int P (std_floor (Fin q)) = Some e"
    and "- 2147483648 \<le> \<lfloor>q\<rfloor>" and "\<lfloor>q\<rfloor> \<le> 2147483647"
  shows "e = \<lfloor>q\<rfloor>" and "(c < e + 1) = (real_of_int c \<le> q)"
proof -
  show e: "e = \<lfloor>q\<rfloor>"
    using assms by (simp add: cast_int_def to_integral_def trunc_of_int)
  show "(c < e + 1) = (real_of_int c \<le> q)"
    by (simp add: e le_floor_iff)
qed


lemma band_int16_geometry:
  "predData band_int16 = pd_example" "boundingBox_min_corner band_int16 = (Fin (- 1 / 2), Fin 0)"
  "boundingBox_max_corner band_int16 = (Fin (7 / 2), Fin 4)" "nRasterYSize band_int16 = 4"
  by (simp_all add: band_int16_def RasterBand_new_def)





text \<open>
  Claim C2, amended. With the \<^verbatim>\<open>double\<close> arithmetic of the source (\<open>res\<close>, \<open>radius\<close> and
  \<open>txY\<close> the quotients of the parameters in centimetres by 100, the top-most pixel centre
  the y of the upper corner of the bounding box less half the resolution, and \<open>dy\<close> the
  absolute value of top-most less row index times resolution less \<open>txY\<close>): when the cache
  has been built, the cached segment of every raster row whose \<open>dy\<close> exceeds the radius is
  exactly \<open>[0,0)\<close>, and so empty. (The converse fails: the counterexample below.)
\<close>

theorem C2_row_outside_radius:
  fixes P :: platform and band band' :: RasterBand and rowIndex :: int
  defines "res \<equiv> ddiv (to_double (nResolution_cm (predData band))) (Fin 100)"
    and "radius \<equiv> ddiv (to_double (nRadius_cm (predData band))) (Fin 100)"
    and "txY \<equiv> ddiv (to_double (nY_cm (predData band))) (Fin 100)"
  defines "topmost \<equiv> dsub (snd (boundingBox_max_corner band)) (dmul (Fin (1 / 2)) res)"
  defines "dy \<equiv> std_abs (dsub (dsub topmost (dmul (to_double rowIndex) res)) txY)"
  assumes "computeRowSegmentsInsidePredictionRadius P band = Inr band'"
    and "0 \<le> rowIndex" and "rowIndex < nRasterYSize band"
    and "dless radius dy"
  shows "rowSegmentsInsidePredictionRadius band' ! nat rowIndex = \<lparr> seg_start = 0, seg_end = 0 \<rparr>
     \<and> seg_start (rowSegmentsInsidePredictionRadius band' ! nat rowIndex)
        = seg_end (rowSegmentsInsidePredictionRadius band' ! nat rowIndex)"
proof -
  define seg where "seg = rowSegmentsInsidePredictionRadius band' ! nat rowIndex"
  from computeRowSegments_Inr [OF assms(6)] assms(7,8)
  have row: "computeRowSegment P band rowIndex = Inr seg"
    by (simp add: seg_def)
  have "seg = \<lparr> seg_start = 0, seg_end = 0 \<rparr>"
    using row assms(9)
    unfolding dy_def topmost_def txY_def radius_def res_def
    by (simp add: computeRowSegment_def Let_def)
  then show ?thesis by (simp add: seg_def)
qed

theorem C2_row_outside_radius_witness:
  "computeRowSegmentsInsidePredictionRadius strict band_int16
      = Inr (band_int16 \<lparr> rowSegmentsInsidePredictionRadius := segs_example \<rparr>)
   \<and> (0::int) \<le> 2 \<and> 2 < nRasterYSize band_int16
   \<and> dless (Fin (5 / 4)) (Fin 2)
   \<and> rowSegmentsInsidePredictionRadius
        (band_int16 \<lparr> rowSegmentsInsidePredictionRadius := segs_example \<rparr>) ! nat 2
      = \<lparr> seg_start = 0, seg_end = 0 \<rparr>"
  using C2_row_outside_radius [where P = strict and band = band_int16 and rowIndex = 2
      and band' = "band_int16 \<lparr> rowSegmentsInsidePredictionRadius := segs_example \<rparr>"]
  by (simp add: band_int16_cache band_int16_geometry pd_example_def to_double_small
      round64_sixteenths dsub_def)

lemma band_tangent_fields:
  "predData band_tangent = \<lparr> nResolution_cm = 100, nRadius_cm = 100, nX_cm = 50, nY_cm = 0 \<rparr>"
  "boundingBox_min_corner band_tangent = (Fin (- 1 / 2), Fin (1 / 2))"
  "boundingBox_max_corner band_tangent = (Fin (7 / 2), Fin (3 / 2))"
  "nRasterYSize band_tangent = 1" "rowSegmentsInsidePredictionRadius band_tangent = []"
  by (simp_all add: band_tangent_def RasterBand_new_def)

lemma band_tangent_row:
  "computeRowSegment P band_tangent 0 = Inr \<lparr> seg_start = 1, seg_end = 1 \<rparr>"
  by (simp add: geometry_eval band_tangent_fields)

text \<open>
  Claim C2 as stated fails. The only row of the band is at a distance of exactly the
  radius from the transmitter, which does not exceed the radius, and its cached segment
  \<open>[1,1)\<close> is empty: the disk touches the row between two pixel centres. Every number of
  that computation (0.5, 1, 1.5 and their sums, products and quotients) is a \<^verbatim>\<open>double\<close>,
  and no operation rounds.
\<close>

theorem C2_counterexample:
  "exact_yDistance band_tangent 0 = exact_radius band_tangent
   \<and> std_abs (dsub (dsub (dsub (Fin (3 / 2)) (dmul (Fin (1 / 2)) (Fin 1))) (dmul (to_double 0) (Fin 1)))
        (Fin 0)) = Fin 1
   \<and> dless (Fin 1) (Fin 1) = False
   \<and> computeRowSegmentsInsidePredictionRadius strict band_tangent
      = Inr (band_tangent \<lparr> rowSegmentsInsidePredictionRadius := [\<lparr> seg_start = 1, seg_end = 1 \<rparr>] \<rparr>)"
proof -
  have "computeRowSegmentsInsidePredictionRadius strict band_tangent
      = Inr (band_tangent \<lparr> rowSegmentsInsidePredictionRadius := [\<lparr> seg_start = 1, seg_end = 1 \<rparr>] \<rparr>)"
    using band_tangent_row by (rule single_row_cache) (simp_all add: band_tangent_fields)
  then show ?thesis
    by (simp add: exact_radius_def exact_res_def exact_txY_def exact_topmostPixelCenter_def
        exact_yDistance_def band_tangent_fields dsub_def to_double_small round64_sixteenths)
qed

section \<open>Blocks without a tile\<close>

lemma map_range_const_all:
  "map_range (\<lambda>_. v) 0 (int (length d)) d = replicate (length d) v"
  by (rule nth_equalityI) simp_all

lemma fillWithNoDataValue_block:
  "length d = n \<Longrightarrow> fillWithNoDataValue v d n = Inr (replicate n v)"
  using map_range_const_all [of v d] by (auto simp: fillWithNoDataValue_def fill_loop_eq)

lemma bufferType_cases:
  "bufferType data = GDT_Byte \<Longrightarrow> \<exists>d. data = ByteData d"
  "bufferType data = GDT_Int16 \<Longrightarrow> \<exists>d. data = Int16Data d"
  "bufferType data = GDT_UInt16 \<Longrightarrow> \<exists>d. data = UInt16Data d"
  "bufferType data = GDT_Int32 \<Longrightarrow> \<exists>d. data = Int32Data d"
  "bufferType data = GDT_UInt32 \<Longrightarrow> \<exists>d. data = UInt32Data d"
  "bufferType data = GDT_Float32 \<Longrightarrow> \<exists>d. data = Float32Data d"
  "bufferType data = GDT_Float64 \<Longrightarrow> \<exists>d. data = Float64Data d"
  by (cases data; simp)+

lemma fillNoDataBlock_sentinel:
  assumes "noDataValue band = Some nd"
    and "sentinelBlock P (eDataType band) nd (getNumPixelsPerBlock band) = Some blk"
    and "bufferType data = eDataType band" and "pixelCount data = getNumPixelsPerBlock band"
  shows "fillNoDataBlock P band data = Inr blk"
proof (cases "eDataType band")
  case GDT_Byte
  with assms(3) obtain d where d: "data = ByteData d" using bufferType_cases(1) by auto
  with assms GDT_Byte show ?thesis
    by (auto simp: fillNoDataBlock_def sentinelBlock_def into_def
        fillWithNoDataValue_block)
next
  case GDT_Int16
  with assms(3) obtain d where d: "data = Int16Data d" using bufferType_cases(2) by auto
  with assms GDT_Int16 show ?thesis
    by (auto simp: fillNoDataBlock_def sentinelBlock_def into_def
        fillWithNoDataValue_block)
next
  case GDT_UInt16
  with assms(3) obtain d where d: "data = UInt16Data d" using bufferType_cases(3) by auto
  with assms GDT_UInt16 show ?thesis
    by (auto simp: fillNoDataBlock_def sentinelBlock_def into_def
        fillWithNoDataValue_block)
next
  case GDT_Int32
  with assms(3) obtain d where d: "data = Int32Data d" using bufferType_cases(4) by auto
  with assms GDT_Int32 show ?thesis
    by (auto simp: fillNoDataBlock_def sentinelBlock_def into_def
        fillWithNoDataValue_block)
next
  case GDT_UInt32
  with assms(3) obtain d where d: "data = UInt32Data d" using bufferType_cases(5) by auto
  with assms GDT_UInt32 show ?thesis
    by (auto simp: fillNoDataBlock_def sentinelBlock_def into_def
        fillWithNoDataValue_block)
next
  case GDT_Float32
  with assms(3) obtain d where d: "data = Float32Data d" using bufferType_cases(6) by auto
  with assms GDT_Float32 show ?thesis
    by (auto simp: fillNoDataBlock_def sentinelBlock_def into_def float_t_def
        fillWithNoDataValue_block)
next
  case GDT_Float64
  with assms(3) obtain d where d: "data = Float64Data d" using bufferType_cases(7) by auto
  with assms GDT_Float64 show ?thesis
    by (auto simp: fillNoDataBlock_def sentinelBlock_def into_def
        fillWithNoDataValue_block)
qed (use assms(2) in \<open>simp_all add: sentinelBlock_def\<close>)

text \<open>
  When the tile provider has no tile for the block: if the band has no no-data value,
  \<^verbatim>\<open>readBlock\<close> fails (with the exception of \<^verbatim>\<open>fillNoDataBlock\<close>), \<^verbatim>\<open>IReadBlock\<close> reports
  \<^verbatim>\<open>CE_Failure\<close> and the caller gets no buffer, whatever the encoding. If the band has a
  no-data value and one of the seven encodings, and the buffer is a block of that
  encoding, \<^verbatim>\<open>readBlock\<close> returns the buffer with every pixel equal to the no-data value
  converted to the pixel type, and the flag false (no tile). For the floating encodings
  and for an integer encoding that represents the value this is so on every platform;
  for an integer encoding that does not, the pixel is what the platform makes of the
  undefined conversion.
\<close>

lemma absent_tile_without_sentinel:
  assumes "raw_GetTile (fst blockIndex) (snd blockIndex) = None" and "noDataValue band = None"
  shows "readBlock P band raw_GetTile blockIndex data = Inl UnknownNoDataValue"
    and "IReadBlock P band raw_GetTile (fst blockIndex) (snd blockIndex) data = Inr (CE_Failure, None)"
proof -
  from assms(2) have f: "fillNoDataBlock P band data = Inl UnknownNoDataValue"
    by (simp add: fillNoDataBlock_def)
  with assms(1) show r: "readBlock P band raw_GetTile blockIndex data = Inl UnknownNoDataValue"
    by (simp add: readBlock_def)
  then show "IReadBlock P band raw_GetTile (fst blockIndex) (snd blockIndex) data
      = Inr (CE_Failure, None)"
    by (simp add: IReadBlock_def thrown_def)
qed

lemma absent_tile_supported:
  assumes "raw_GetTile (fst blockIndex) (snd blockIndex) = None"
    and "noDataValue band = Some nd"
    and "sentinelBlock P (eDataType band) nd (getNumPixelsPerBlock band) = Some blk"
    and "bufferType data = eDataType band" and "pixelCount data = getNumPixelsPerBlock band"
  shows "readBlock P band raw_GetTile blockIndex data = Inr (blk, False)"
    and "IReadBlock P band raw_GetTile (fst blockIndex) (snd blockIndex) data
       = Inr (CE_None, Some (band, blk))"
proof -
  have f: "fillNoDataBlock P band data = Inr blk"
    using assms(2-5) by (rule fillNoDataBlock_sentinel)
  with assms(1) show r: "readBlock P band raw_GetTile blockIndex data = Inr (blk, False)"
    by (simp add: readBlock_def)
  then show "IReadBlock P band raw_GetTile (fst blockIndex) (snd blockIndex) data
      = Inr (CE_None, Some (band, blk))"
    by (simp add: IReadBlock_def)
qed

lemma sentinelBlock_total:
  assumes "dt \<in> {GDT_Byte, GDT_Int16, GDT_UInt16, GDT_Int32, GDT_UInt32, GDT_Float32, GDT_Float64}"
    and "P nd \<noteq> None"
  shows "\<exists>blk. sentinelBlock P dt nd n = Some blk \<and> bufferType blk = dt \<and> pixelCount blk = n"
  using assms by (auto simp: sentinelBlock_def with_platform_def split: option.splits)

text \<open>
  A band of bytes whose no-data value is 256, which no byte represents: the fill meets the
  undefined conversion, and on x86-64 the block is filled with the byte 0. A band of
  32-bit floats whose no-data value is 16777217: the block is filled with the \<^verbatim>\<open>float\<close>
  16777216.
\<close>

lemma replicate_4: "replicate 4 x = [x, x, x, x]"
  by (simp add: eval_nat_numeral)

lemma byte_256: "(word_of_int 256 :: 8 word) = 0"
  by simp

lemma band_byte_256_fields:
  "eDataType band_byte_256 = GDT_Byte" "noDataValue band_byte_256 = Some (Fin 256)"
  "getNumPixelsPerBlock band_byte_256 = 4"
  by (simp_all add: band_byte_256_def SetNoDataValue_def RasterBand_new_def getNumPixelsPerBlock_def)

lemma absent_tile_byte_256:
  "readBlock strict band_byte_256 no_tiles (0, 0) (ByteData [1, 2, 3, 4]) = Inl UndefinedConversion"
  "IReadBlock strict band_byte_256 no_tiles 0 0 (ByteData [1, 2, 3, 4]) = Inl UndefinedConversion"
  "readBlock cvttsd2si band_byte_256 no_tiles (0, 0) (ByteData [1, 2, 3, 4])
     = Inr (ByteData [0, 0, 0, 0], False)"
  "IReadBlock cvttsd2si band_byte_256 no_tiles 0 0 (ByteData [1, 2, 3, 4])
     = Inr (CE_None, Some (band_byte_256, ByteData [0, 0, 0, 0]))"
  by (simp_all add: IReadBlock_def readBlock_def fillNoDataBlock_def band_byte_256_fields no_tiles_def
      uint8_t_def cvttsd2si_def to_integral_def trunc_def with_platform_def strict_def thrown_def
      into_def fillWithNoDataValue_block replicate_4 byte_256)

lemma round32_16777217: "round32 16777217 = Fin 16777216"
proof -
  have "round_ieee 24 (- 126) 127 16777217 = Fin (of_int 8388608 * pow2 (24 - 24 + 1))"
    by (rule round_ieee_tie) (simp_all add: pow2_def)
  then show ?thesis by (simp add: round32_def pow2_def)
qed

lemma band_float32_fields:
  "eDataType band_float32 = GDT_Float32" "noDataValue band_float32 = Some (Fin 16777217)"
  "getNumPixelsPerBlock band_float32 = 4"
  by (simp_all add: band_float32_def SetNoDataValue_def RasterBand_new_def getNumPixelsPerBlock_def)

lemma absent_tile_float32:
  "readBlock P band_float32 no_tiles (0, 0) (Float32Data [Fin 1, Fin 2, Fin 3, Fin 4])
     = Inr (Float32Data [Fin 16777216, Fin 16777216, Fin 16777216, Fin 16777216], False)"
  by (simp add: readBlock_def fillNoDataBlock_def band_float32_fields no_tiles_def float_t_def
      round32_16777217 into_def fillWithNoDataValue_block replicate_4)

lemma band_cint16_fields:
  "eDataType band_cint16 = GDT_CInt16" "noDataValue band_cint16 = Some (Fin 0)"
  by (simp_all add: band_cint16_def SetNoDataValue_def RasterBand_new_def)


section \<open>Encodings outside the seven\<close>

text \<open>
  Claim C4 fails on the code, on the path the claim names. For a band of an encoding
  outside the seven that has a no-data value, and a block without a tile, the switch of
  \<^verbatim>\<open>fillNoDataBlock\<close> matches no case: the buffer is returned as it was and \<^verbatim>\<open>IReadBlock\<close>
  reports \<^verbatim>\<open>CE_None\<close>. (When there is a tile, \<^verbatim>\<open>readTile\<close> throws and the read fails, which
  is \<open>unsupported_tile_read_fails\<close> below.)
\<close>

theorem C4_sentinel_fill_unsupported_encoding:
  "eDataType band_cint16 = GDT_CInt16 \<and> noDataValue band_cint16 = Some (Fin 0)
   \<and> no_tiles nXBlockOff nYBlockOff = None
   \<and> fillNoDataBlock P band_cint16 pImage = Inr pImage
   \<and> readBlock P band_cint16 no_tiles (nXBlockOff, nYBlockOff) pImage = Inr (pImage, False)
   \<and> IReadBlock P band_cint16 no_tiles nXBlockOff nYBlockOff pImage
      = Inr (CE_None, Some (band_cint16, pImage))"
  by (simp add: IReadBlock_def readBlock_def fillNoDataBlock_def band_cint16_fields no_tiles_def)

lemma unsupported_readTile:
  assumes "eDataType band \<notin> {GDT_Byte, GDT_Int16, GDT_UInt16, GDT_Int32, GDT_UInt32, GDT_Float32, GDT_Float64}"
  shows "readTile band tile numPixels data = Inl UnsupportedDataType"
  using assms by (cases "eDataType band") (simp_all add: readTile_def)

lemma unsupported_tile_read_fails:
  assumes "eDataType band \<notin> {GDT_Byte, GDT_Int16, GDT_UInt16, GDT_Int32, GDT_UInt32, GDT_Float32, GDT_Float64}"
    and "raw_GetTile nXBlockOff nYBlockOff = Some tile"
  shows "IReadBlock P band raw_GetTile nXBlockOff nYBlockOff pImage = Inr (CE_Failure, None)"
proof -
  have "readBlock P band raw_GetTile (nXBlockOff, nYBlockOff) pImage = Inl UnsupportedDataType
      \<or> readBlock P band raw_GetTile (nXBlockOff, nYBlockOff) pImage = Inl TileLargerThanBlock"
    using assms(2) unsupported_readTile [OF assms(1)]
    by (auto simp: readBlock_def fillPartialBlock_def Let_def split: prod.splits)
  then show ?thesis by (auto simp: IReadBlock_def thrown_def)
qed

section \<open>Tiles larger than the block\<close>

text \<open>
  Claim C5, amended. When the provider returns a tile whose pixel count differs from the
  block's and whose width exceeds the block width or whose height exceeds the block height,
  \<^verbatim>\<open>readBlock\<close> fails with the tile-larger-than-block error and \<^verbatim>\<open>IReadBlock\<close> reports
  \<^verbatim>\<open>CE_Failure\<close>: nothing of the tile is copied.
\<close>

theorem C5_partial_tile_larger_than_block:
  assumes "raw_GetTile (fst blockIndex) (snd blockIndex) = Some tile"
    and "GetPixelCount tile \<noteq> getNumPixelsPerBlock band"
    and "nBlockXSize band < fst (GetTileRegion tile) \<or> nBlockYSize band < snd (GetTileRegion tile)"
  shows "readBlock P band raw_GetTile blockIndex data = Inl TileLargerThanBlock
     \<and> IReadBlock P band raw_GetTile (fst blockIndex) (snd blockIndex) data = Inr (CE_Failure, None)"
proof -
  have "fillPartialBlock band tile data = Inl TileLargerThanBlock"
    using assms(3) by (auto simp: fillPartialBlock_def split: prod.splits)
  with assms(1,2) have r: "readBlock P band raw_GetTile blockIndex data = Inl TileLargerThanBlock"
    by (simp add: readBlock_def)
  then show ?thesis by (simp add: IReadBlock_def thrown_def)
qed

theorem C5_partial_tile_larger_than_block_witness:
  "(\<lambda>x y. Some large_tile) (fst (0::int, 0::int)) (snd (0::int, 0::int)) = Some large_tile
   \<and> GetPixelCount large_tile \<noteq> getNumPixelsPerBlock band_3rows
   \<and> nBlockXSize band_3rows < fst (GetTileRegion large_tile)
   \<and> readBlock strict band_3rows (\<lambda>x y. Some large_tile) (0, 0) (ByteData [0, 0, 0, 0])
      = Inl TileLargerThanBlock
   \<and> IReadBlock strict band_3rows (\<lambda>x y. Some large_tile) 0 0 (ByteData [0, 0, 0, 0])
      = Inr (CE_Failure, None)"
proof -
  have h: "(\<lambda>x y. Some large_tile) (fst (0::int, 0::int)) (snd (0::int, 0::int)) = Some large_tile"
    "GetPixelCount large_tile \<noteq> getNumPixelsPerBlock band_3rows"
    "nBlockXSize band_3rows < fst (GetTileRegion large_tile)
       \<or> nBlockYSize band_3rows < snd (GetTileRegion large_tile)"
    by (simp_all add: large_tile_def getNumPixelsPerBlock_def band_3rows_fields)
  from C5_partial_tile_larger_than_block [where raw_GetTile = "\<lambda>x y. Some large_tile"
      and blockIndex = "(0, 0)" and tile = large_tile and band = band_3rows and P = strict
      and data = "ByteData [0, 0, 0, 0]"] h
  show ?thesis by (simp add: large_tile_def band_3rows_fields)
qed

text \<open>
  Claim C5 as stated fails: \<^verbatim>\<open>readBlock\<close> looks at the region of a tile only when the
  tile's pixel count differs from the block's. A tile of 4 by 1 pixels is wider than the
  block of 2 by 2 pixels and has as many pixels: it is copied into the buffer, and the
  read succeeds.
\<close>

theorem C5_counterexample:
  "nBlockXSize band_3rows < fst (GetTileRegion wide_tile)
   \<and> readBlock strict band_3rows (\<lambda>x y. Some wide_tile) (0, 0) (ByteData [0, 0, 0, 0])
      = Inr (ByteData [1, 2, 3, 4], True)
   \<and> IReadBlock strict band_3rows (\<lambda>x y. Some wide_tile) 0 0 (ByteData [0, 0, 0, 0])
      = Inr (CE_None, Some (band_3rows \<lparr> rowSegmentsInsidePredictionRadius := segs_3rows \<rparr>,
                            ByteData [1, 2, 200, 200]))"
proof -
  have r: "readBlock strict band_3rows (\<lambda>x y. Some wide_tile) (0, 0) (ByteData [0, 0, 0, 0])
      = Inr (ByteData [1, 2, 3, 4], True)"
    by (simp add: readBlock_def wide_tile_def getNumPixelsPerBlock_def band_3rows_fields readTile_def
        write_pixels_def into_def)
  have p: "postProcessBlock strict band_3rows (0, 0) (ByteData [1, 2, 3, 4])
      = Inr (band_3rows \<lparr> rowSegmentsInsidePredictionRadius := segs_3rows \<rparr>, ByteData [1, 2, 200, 200])"
    by (simp add: postProcessBlock_def band_3rows_cache band_3rows_fields getValidValuesRange_def
      typed_def rows_loop.simps computeBlockRowSegment_def segs_3rows_def row_view_def row_write_def
      uint8_t_def row_eval strict_def)
  from r p show ?thesis
    by (simp add: IReadBlock_def wide_tile_def band_3rows_fields)
qed

end
